theory Spec2Isabelle
  imports Complex_Main "HOL-Library.Sublist"
begin

section \<open>Data model\<close>

text \<open>
  The cleaner works on pandas tables. A table is modelled by its column schema (names in
  order, each with its dtype), the dtype of its row index, and its rows; a row is the index
  entry followed by one cell per column. Timestamps are nanoseconds since the Unix epoch:
  the wall-clock reading for a naive index, the UTC instant for an aware one. A zone is a
  fixed offset from UTC, in seconds east; zones with daylight-saving transitions are outside
  this model. Python strings are byte strings here and \<open>lower\<close> folds the ASCII letters.
\<close>

datatype zone = Zone (utcoffset: int)

datatype dtype = ObjectT | Int64T | Float64T | Datetime64T "zone option"

datatype cell =
    Str string
  | IntV int
  | Flt rat
  | PInf
  | NInf
  | NaN
  | Ts int
  | NaT

record table =
  columns :: "(string \<times> dtype) list"
  index_dtype :: dtype
  rows :: "(cell \<times> cell list) list"

datatype error = KeyError | ValueError | OutOfBoundsDatetime | AttributeError | TypeError

text \<open>
  Tables are mutable objects. The store is the list of all table objects allocated so far,
  a reference is a position in it, and a new object is appended at the end.
\<close>

type_synonym ref = nat
type_synonym heap = "table list"

text \<open>
  The cleaner holds the timezone setting; \<open>None\<close> stands for Python's \<open>None\<close> and for
  the empty identifier, which \<open>if self.timezone:\<close> treats alike.
\<close>

record DFCleaner =
  timezone :: "zone option"

text \<open>
  The pandas routines whose result the cleaner only passes on are parameters:
  \<open>parse_datetime dayfirst s\<close> is the general date parser on one text cell (\<open>None\<close>
  when the text is no date), \<open>text_with_unit s\<close> is what \<open>to_datetime(unit='ms')\<close> makes
  of a text cell (it differs between pandas versions), \<open>infer_freq\<close> is
  \<open>pd.infer_freq\<close> on an index (it may raise, and may return no frequency).
\<close>

record pandas =
  parse_datetime :: "bool \<Rightarrow> string \<Rightarrow> int option"
  text_with_unit :: "string \<Rightarrow> error + cell"
  infer_freq :: "dtype \<Rightarrow> cell list \<Rightarrow> error + string option"

section \<open>Strings\<close>

definition lower_char :: "char \<Rightarrow> char" where
  "lower_char c =
     (case map_of (zip ''ABCDEFGHIJKLMNOPQRSTUVWXYZ'' ''abcdefghijklmnopqrstuvwxyz'') c of
        Some d \<Rightarrow> d | None \<Rightarrow> c)"

definition lower :: "string \<Rightarrow> string" where
  "lower s = map lower_char s"

text \<open>
  \<open>str.replace(pat, rep, regex=False)\<close>: every occurrence of the literal \<open>pat\<close>, found
  left to right without overlap, is replaced. The patterns of the cleaner are never empty.
\<close>

fun replace_lit :: "string \<Rightarrow> string \<Rightarrow> string \<Rightarrow> string" where
  "replace_lit pat rep [] = []"
| "replace_lit pat rep (c # cs) =
     (if pat \<noteq> [] \<and> prefix pat (c # cs)
      then rep @ replace_lit pat rep (drop (length pat) (c # cs))
      else c # replace_lit pat rep cs)"

section \<open>Time column detection\<close>

definition time_cols :: "string list" where
  "time_cols =
     [''date'', ''dt'', ''hour'', ''time'', ''day'', ''month'', ''year'', ''week'',
      ''timestamp'', ''block_timestamp'', ''ds'', ''period'', ''date_time'', ''trunc_date'',
      ''quarter'', ''block_time'', ''block_date'', ''date(utc)'']"

text \<open>
  \<open>if custom_col:\<close> is false for \<open>None\<close> and for the empty string; the list that is
  extended is local to the call.
\<close>

definition vocabulary :: "string option \<Rightarrow> string list" where
  "vocabulary custom_col =
     (case custom_col of
        None \<Rightarrow> time_cols
      | Some h \<Rightarrow> if h \<noteq> [] then time_cols @ [lower h] else time_cols)"

fun first_match :: "string list \<Rightarrow> string list \<Rightarrow> string option" where
  "first_match voc [] = None"
| "first_match voc (col # cols) =
     (if lower col \<in> set voc then Some col else first_match voc cols)"

definition detect_time_col :: "table \<Rightarrow> string option \<Rightarrow> string option" where
  "detect_time_col df custom_col = first_match (vocabulary custom_col) (map fst (columns df))"

section \<open>Table objects in the store\<close>

text \<open>\<open>df.copy()\<close> allocates a new object with the same contents.\<close>

definition df_copy :: "ref \<Rightarrow> heap \<Rightarrow> ref \<times> heap" where
  "df_copy df h = (length h, h @ [h ! df])"

definition alloc :: "table \<Rightarrow> heap \<Rightarrow> ref \<times> heap" where
  "alloc t h = (length h, h @ [t])"

definition index_cells :: "table \<Rightarrow> cell list" where
  "index_cells t = map fst (rows t)"

text \<open>A nanosecond count fits a pandas timestamp when it is a signed 64-bit value.\<close>

definition in_bounds :: "int \<Rightarrow> bool" where
  "in_bounds v = (- 9223372036854775808 < v \<and> v \<le> 9223372036854775807)"

text \<open>A conversion that may raise, applied cell by cell: the first failure is raised.\<close>

fun map_cells :: "(cell \<Rightarrow> error + cell) \<Rightarrow> cell list \<Rightarrow> error + cell list" where
  "map_cells f [] = Inr []"
| "map_cells f (c # cs) =
     (case f c of
        Inl e \<Rightarrow> Inl e
      | Inr c' \<Rightarrow> (case map_cells f cs of Inl e \<Rightarrow> Inl e | Inr cs' \<Rightarrow> Inr (c' # cs')))"

section \<open>Timezone policy\<close>

definition nanos :: "zone \<Rightarrow> int" where
  "nanos z = utcoffset z * 1000000000"

text \<open>
  Moving the entries of a timestamp index by \<open>d\<close> nanoseconds: pandas raises
  OutOfBoundsDatetime when an entry leaves the bounds; a missing entry stays missing.
\<close>

definition shift :: "int \<Rightarrow> cell \<Rightarrow> error + cell" where
  "shift d c =
     (case c of
        Ts v \<Rightarrow> if in_bounds (v + d) then Inr (Ts (v + d)) else Inl OutOfBoundsDatetime
      | _ \<Rightarrow> Inr c)"

definition shift_index :: "int \<Rightarrow> table \<Rightarrow> error + table" where
  "shift_index d t =
     (case map_cells (shift d) (index_cells t) of
        Inl e \<Rightarrow> Inl e
      | Inr entries \<Rightarrow> Inr (t\<lparr>rows := map (\<lambda>(r, c). (c, snd r)) (zip (rows t) entries)\<rparr>))"

definition is_datetime64_any_dtype :: "dtype \<Rightarrow> bool" where
  "is_datetime64_any_dtype d = (case d of Datetime64T tz \<Rightarrow> True | _ \<Rightarrow> False)"

text \<open>\<open>index.tz\<close>: only a timestamp index has the attribute.\<close>

definition index_tz :: "table \<Rightarrow> error + zone option" where
  "index_tz t = (case index_dtype t of Datetime64T tz \<Rightarrow> Inr tz | _ \<Rightarrow> Inl AttributeError)"

text \<open>
  \<open>index.tz_localize(tz)\<close>: a naive index is reinterpreted as wall-clock time in \<open>tz\<close>;
  with \<open>tz = None\<close> an aware index keeps its wall-clock reading and loses the zone; an aware
  index cannot be localized to a zone. Either move raises when an entry leaves the bounds.
  (In a zone with transitions pandas also raises on a wall-clock time that does not exist
  or exists twice; the zones here have none.) \<open>index.tz_convert(tz)\<close> keeps the instants of
  an aware index and raises on a naive one.
\<close>

definition tz_localize :: "zone option \<Rightarrow> table \<Rightarrow> error + table" where
  "tz_localize tz t =
     (case index_dtype t of
        Datetime64T None \<Rightarrow>
          (case tz of
             None \<Rightarrow> Inr t
           | Some z \<Rightarrow>
               (case shift_index (- nanos z) t of
                  Inl e \<Rightarrow> Inl e
                | Inr t' \<Rightarrow> Inr (t'\<lparr>index_dtype := Datetime64T (Some z)\<rparr>)))
      | Datetime64T (Some z') \<Rightarrow>
          (case tz of
             None \<Rightarrow>
               (case shift_index (nanos z') t of
                  Inl e \<Rightarrow> Inl e
                | Inr t' \<Rightarrow> Inr (t'\<lparr>index_dtype := Datetime64T None\<rparr>))
           | Some z \<Rightarrow> Inl TypeError)
      | _ \<Rightarrow> Inl AttributeError)"

definition tz_convert :: "zone \<Rightarrow> table \<Rightarrow> error + table" where
  "tz_convert z t =
     (case index_dtype t of
        Datetime64T None \<Rightarrow> Inl TypeError
      | Datetime64T (Some z') \<Rightarrow> Inr (t\<lparr>index_dtype := Datetime64T (Some z)\<rparr>)
      | _ \<Rightarrow> Inl AttributeError)"

text \<open>The new index is assigned to the object passed in, and that object is returned.\<close>

definition apply_timezone :: "DFCleaner \<Rightarrow> ref \<Rightarrow> heap \<Rightarrow> error + (ref \<times> heap)" where
  "apply_timezone self df h =
     (if \<not> is_datetime64_any_dtype (index_dtype (h ! df)) then Inr (df, h)
      else
        (case timezone self of
           Some z \<Rightarrow>
             (case index_tz (h ! df) of
                Inl e \<Rightarrow> Inl e
              | Inr None \<Rightarrow>
                  (case tz_localize (Some z) (h ! df) of
                     Inl e \<Rightarrow> Inl e | Inr t \<Rightarrow> Inr (df, h[df := t]))
              | Inr (Some z') \<Rightarrow>
                  (case tz_convert z (h ! df) of
                     Inl e \<Rightarrow> Inl e | Inr t \<Rightarrow> Inr (df, h[df := t])))
         | None \<Rightarrow>
             (case tz_localize None (h ! df) of
                Inl e \<Rightarrow> Inl e | Inr t \<Rightarrow> Inr (df, h[df := t]))))"

section \<open>Calendar\<close>

text \<open>
  Days since 1970-01-01 in the proleptic Gregorian calendar, as Python's \<open>date\<close> counts
  them; \<open>weekday\<close> is 0 on Monday.
\<close>

definition days_from_civil :: "int \<Rightarrow> int \<Rightarrow> int \<Rightarrow> int" where
  "days_from_civil y m d =
     (let y' = (if m \<le> 2 then y - 1 else y);
          era = y' div 400;
          yoe = y' mod 400;
          doy = (153 * (if m > 2 then m - 3 else m + 9) + 2) div 5 + d - 1;
          doe = yoe * 365 + yoe div 4 - yoe div 100 + doy
      in era * 146097 + doe - 719468)"

definition civil_from_days :: "int \<Rightarrow> int \<times> int \<times> int" where
  "civil_from_days z =
     (let z' = z + 719468;
          era = z' div 146097;
          doe = z' mod 146097;
          yoe = (doe - doe div 1460 + doe div 36524 - doe div 146096) div 365;
          doy = doe - (365 * yoe + yoe div 4 - yoe div 100);
          mp = (5 * doy + 2) div 153;
          d = doy - (153 * mp + 2) div 5 + 1;
          m = (if mp < 10 then mp + 3 else mp - 9)
      in (if m \<le> 2 then yoe + era * 400 + 1 else yoe + era * 400, m, d))"

definition ns_per_day :: int where
  "ns_per_day = 86400000000000"

text \<open>
  A pandas \<open>Timestamp\<close>: \<open>value\<close> is the wall-clock reading when \<open>tz\<close> is \<open>None\<close> and
  the UTC instant otherwise.
\<close>

record timestamp =
  "value" :: int
  tz :: "zone option"

definition wall :: "timestamp \<Rightarrow> int" where
  "wall t = (case tz t of None \<Rightarrow> value t | Some z \<Rightarrow> value t + nanos z)"

definition civil :: "timestamp \<Rightarrow> int \<times> int \<times> int" where
  "civil t = civil_from_days (wall t div ns_per_day)"

definition year :: "timestamp \<Rightarrow> int" where
  "year t = fst (civil t)"

definition month :: "timestamp \<Rightarrow> int" where
  "month t = fst (snd (civil t))"

definition day :: "timestamp \<Rightarrow> int" where
  "day t = snd (snd (civil t))"

definition weekday :: "timestamp \<Rightarrow> int" where
  "weekday t = (wall t div ns_per_day + 3) mod 7"

text \<open>\<open>t - pd.to_timedelta(k, unit='d')\<close> and \<open>t.replace(day=1)\<close>.\<close>

definition minus_days :: "timestamp \<Rightarrow> int \<Rightarrow> timestamp" where
  "minus_days t k = t\<lparr>value := value t - k * ns_per_day\<rparr>"

definition replace_day1 :: "timestamp \<Rightarrow> timestamp" where
  "replace_day1 t = t\<lparr>value := value t - (day t - 1) * ns_per_day\<rparr>"

text \<open>\<open>pd.Timestamp(dt.date(y, m, d))\<close>: naive midnight of that date.\<close>

definition timestamp_of_date :: "int \<Rightarrow> int \<Rightarrow> int \<Rightarrow> timestamp" where
  "timestamp_of_date y m d = \<lparr>value = days_from_civil y m d * ns_per_day, tz = None\<rparr>"

definition ts_localize :: "zone \<Rightarrow> timestamp \<Rightarrow> timestamp" where
  "ts_localize z t = \<lparr>value = value t - nanos z, tz = Some z\<rparr>"

section \<open>Period trimming\<close>

text \<open>
  The clock is an input: the current instant, and the UTC offset (in seconds) of the
  machine's local zone, which \<open>dt.date.today()\<close> reads.
\<close>

record clock =
  now_utc :: int
  local_utcoffset :: int

text \<open>\<open>pd.Timestamp.now(tz=z)\<close> and \<open>pd.to_datetime(dt.date.today())\<close>.\<close>

definition timestamp_now :: "clock \<Rightarrow> zone \<Rightarrow> timestamp" where
  "timestamp_now clk z = \<lparr>value = now_utc clk, tz = Some z\<rparr>"

definition date_today :: "clock \<Rightarrow> timestamp" where
  "date_today clk =
     (case civil_from_days ((now_utc clk + local_utcoffset clk * 1000000000) div ns_per_day) of
        (y, m, d) \<Rightarrow> timestamp_of_date y m d)"

definition today_of :: "clock \<Rightarrow> zone option \<Rightarrow> timestamp" where
  "today_of clk index_zone =
     (case index_zone of Some z \<Rightarrow> timestamp_now clk z | None \<Rightarrow> date_today clk)"

text \<open>The right-hand side of the comparison in each branch of \<open>clean_dates\<close>.\<close>

definition boundary :: "clock \<Rightarrow> zone option \<Rightarrow> string \<Rightarrow> timestamp" where
  "boundary clk index_zone time_freq =
     (let today = today_of clk index_zone in
      if time_freq = ''W'' then minus_days today (weekday today)
      else if time_freq = ''M'' then replace_day1 today
      else if time_freq = ''Q'' then
        (let current_quarter = (month today - 1) div 3 + 1;
             quarter_start = timestamp_of_date (year today) ((current_quarter - 1) * 3 + 1) 1
         in case index_zone of Some z \<Rightarrow> ts_localize z quarter_start | None \<Rightarrow> quarter_start)
      else today)"

text \<open>
  \<open>df.index < t\<close>: a missing entry compares false; comparing a naive index with an aware
  timestamp, or the reverse, raises.
\<close>

definition cell_lt :: "cell \<Rightarrow> int \<Rightarrow> bool" where
  "cell_lt c b = (case c of Ts v \<Rightarrow> v < b | _ \<Rightarrow> False)"

definition index_lt :: "table \<Rightarrow> timestamp \<Rightarrow> error + bool list" where
  "index_lt t b =
     (case index_dtype t of
        Datetime64T z \<Rightarrow>
          if (z = None) = (tz b = None) then Inr (map (\<lambda>c. cell_lt c (value b)) (index_cells t))
          else Inl TypeError
      | _ \<Rightarrow> Inl TypeError)"

text \<open>\<open>df[keep]\<close>: the rows whose keep entry is true, in a new table.\<close>

definition select_rows :: "bool list \<Rightarrow> table \<Rightarrow> table" where
  "select_rows keep t = t\<lparr>rows := map snd (filter fst (zip keep (rows t)))\<rparr>"

text \<open>
  \<open>df.sort_index()\<close>: a new table, rows ascending by index entry, missing entries last.
  Rows with equal entries keep their order here; pandas does not promise that.
\<close>

definition sort_value :: "cell \<Rightarrow> int" where
  "sort_value c = (case c of Ts v \<Rightarrow> v | IntV v \<Rightarrow> v | _ \<Rightarrow> 0)"

definition is_missing :: "cell \<Rightarrow> bool" where
  "is_missing c = (c = NaT \<or> c = NaN)"

definition sort_index :: "table \<Rightarrow> table" where
  "sort_index t =
     t\<lparr>rows := sort_key (\<lambda>r. sort_value (fst r)) (filter (\<lambda>r. \<not> is_missing (fst r)) (rows t))
                @ filter (\<lambda>r. is_missing (fst r)) (rows t)\<rparr>"

definition clean_dates :: "clock \<Rightarrow> ref \<Rightarrow> string \<Rightarrow> heap \<Rightarrow> error + (ref \<times> heap)" where
  "clean_dates clk df time_freq h =
     (case df_copy df h of
        (df1, h1) \<Rightarrow>
          (case index_tz (h1 ! df1) of
             Inl e \<Rightarrow> Inl e
           | Inr index_zone \<Rightarrow>
               (case index_lt (h1 ! df1) (boundary clk index_zone time_freq) of
                  Inl e \<Rightarrow> Inl e
                | Inr keep \<Rightarrow>
                    (case alloc (select_rows keep (h1 ! df1)) h1 of
                       (df2, h2) \<Rightarrow> Inr (alloc (sort_index (h2 ! df2)) h2)))))"

section \<open>Columns\<close>

fun position :: "'a \<Rightarrow> 'a list \<Rightarrow> nat option" where
  "position x [] = None"
| "position x (y # ys) = (if x = y then Some 0 else map_option Suc (position x ys))"

text \<open>
  \<open>df[col]\<close> raises KeyError for an unknown name. Column names are taken to be distinct and
  every row to hold one cell per column, as in a table pandas has built.
\<close>

definition get_column :: "string \<Rightarrow> table \<Rightarrow> error + (nat \<times> dtype \<times> cell list)" where
  "get_column col t =
     (case position col (map fst (columns t)) of
        None \<Rightarrow> Inl KeyError
      | Some p \<Rightarrow> Inr (p, snd (columns t ! p), map (\<lambda>r. snd r ! p) (rows t)))"

text \<open>\<open>df[col] = values\<close> for an existing column.\<close>

definition set_column :: "nat \<Rightarrow> dtype \<Rightarrow> cell list \<Rightarrow> table \<Rightarrow> table" where
  "set_column p d cells t =
     t\<lparr>columns := (columns t)[p := (fst (columns t ! p), d)],
       rows := map (\<lambda>(r, c). (fst r, (snd r)[p := c])) (zip (rows t) cells)\<rparr>"

definition drop_at :: "nat \<Rightarrow> 'a list \<Rightarrow> 'a list" where
  "drop_at p xs = take p xs @ drop (Suc p) xs"

text \<open>\<open>df.set_index(col, inplace=True)\<close>: the column becomes the index and leaves the columns.\<close>

definition set_index :: "nat \<Rightarrow> table \<Rightarrow> table" where
  "set_index p t =
     t\<lparr>columns := drop_at p (columns t),
       index_dtype := snd (columns t ! p),
       rows := map (\<lambda>r. (snd r ! p, drop_at p (snd r))) (rows t)\<rparr>"

section \<open>Reading timestamps\<close>

definition is_digit :: "char \<Rightarrow> bool" where
  "is_digit c = (c \<in> set ''0123456789'')"

definition digit_value :: "char \<Rightarrow> nat" where
  "digit_value c = (case map_of (zip ''0123456789'' [0, 1, 2, 3, 4, 5, 6, 7, 8, 9]) c of
                      Some d \<Rightarrow> d | None \<Rightarrow> 0)"

definition digits_value :: "string \<Rightarrow> nat" where
  "digits_value ds = foldl (\<lambda>a c. 10 * a + digit_value c) 0 ds"

definition nat_strings :: "string list" where
  "nat_strings = [''NaT'', ''nat'', ''NAT'', ''nan'', ''NaN'', ''NAN'']"

text \<open>
  \<open>pd.to_datetime(text, format='%Y').dt.year\<close> on one text: the empty text and the missing
  markers give a missing year, four digits give that year when 1 January of it is in
  bounds, anything else raises.
\<close>

definition strptime_year :: "string \<Rightarrow> error + cell" where
  "strptime_year s =
     (if s = [] \<or> s \<in> set nat_strings then Inr NaN
      else if length s = 4 \<and> list_all is_digit s then
        (if in_bounds (days_from_civil (int (digits_value s)) 1 1 * ns_per_day)
         then Inr (IntV (int (digits_value s))) else Inl OutOfBoundsDatetime)
      else Inl ValueError)"

fun digits_of :: "nat \<Rightarrow> string" where
  "digits_of n =
     (if n < 10 then [''0123456789'' ! n] else digits_of (n div 10) @ [''0123456789'' ! (n mod 10)])"

definition str_of_int :: "int \<Rightarrow> string" where
  "str_of_int v = (if v < 0 then CHR ''-'' # digits_of (nat (- v)) else digits_of (nat v))"

text \<open>
  The \<open>year\<close> branch on one cell, after \<open>astype(str)\<close>. The text of a float or of a
  timestamp has a point, a dash or letters, so it never matches \<open>%Y\<close>.
\<close>

fun year_cell :: "cell \<Rightarrow> error + cell" where
  "year_cell (Str s) = strptime_year s"
| "year_cell (IntV v) = strptime_year (str_of_int v)"
| "year_cell NaN = strptime_year ''nan''"
| "year_cell NaT = strptime_year ''NaT''"
| "year_cell c = Inl ValueError"

text \<open>
  \<open>pd.to_datetime(v, unit='ms')\<close> on one cell: an integer is a count of milliseconds
  since the epoch, and raises when the instant is out of bounds; a float is rounded to whole
  nanoseconds (exactly here, where pandas rounds in floating point).
\<close>

fun ms_cell :: "pandas \<Rightarrow> cell \<Rightarrow> error + cell" where
  "ms_cell lib (IntV v) =
     (if in_bounds (v * 1000000) then Inr (Ts (v * 1000000)) else Inl OutOfBoundsDatetime)"
| "ms_cell lib (Flt q) =
     (if in_bounds (round (q * 1000000)) then Inr (Ts (round (q * 1000000)))
      else Inl OutOfBoundsDatetime)"
| "ms_cell lib (Str s) = text_with_unit lib s"
| "ms_cell lib NaN = Inr NaT"
| "ms_cell lib NaT = Inr NaT"
| "ms_cell lib (Ts v) = Inr (Ts v)"
| "ms_cell lib c = Inl OutOfBoundsDatetime"

text \<open>
  \<open>pd.to_datetime(v, dayfirst=dayfirst, errors='coerce')\<close> on one cell: what cannot be read
  is missing. A number without a unit counts nanoseconds.
\<close>

fun coerce_cell :: "pandas \<Rightarrow> bool \<Rightarrow> cell \<Rightarrow> cell" where
  "coerce_cell lib dayfirst (Str s) =
     (case parse_datetime lib dayfirst s of None \<Rightarrow> NaT | Some v \<Rightarrow> Ts v)"
| "coerce_cell lib dayfirst (IntV v) = (if in_bounds v then Ts v else NaT)"
| "coerce_cell lib dayfirst (Flt q) =
     (if in_bounds (if q < 0 then \<lceil>q\<rceil> else \<lfloor>q\<rfloor>) then Ts (if q < 0 then \<lceil>q\<rceil> else \<lfloor>q\<rfloor>) else NaT)"
| "coerce_cell lib dayfirst (Ts v) = Ts v"
| "coerce_cell lib dayfirst c = NaT"

section \<open>Timestamp indexing\<close>

definition promote :: "cell \<Rightarrow> cell" where
  "promote c = (case c of IntV v \<Rightarrow> Flt (of_int v) | _ \<Rightarrow> c)"

text \<open>A numeric column holding a missing value is a float column.\<close>

definition numeric_column :: "cell list \<Rightarrow> dtype \<times> cell list" where
  "numeric_column cells =
     (if list_all (\<lambda>c. case c of IntV v \<Rightarrow> True | _ \<Rightarrow> False) cells then (Int64T, cells)
      else (Float64T, map promote cells))"

definition year_column :: "cell list \<Rightarrow> error + (dtype \<times> cell list)" where
  "year_column cells =
     (case map_cells year_cell cells of Inl e \<Rightarrow> Inl e | Inr ys \<Rightarrow> Inr (numeric_column ys))"

text \<open>A column that already holds timestamps is returned as it is.\<close>

definition ms_column :: "pandas \<Rightarrow> dtype \<Rightarrow> cell list \<Rightarrow> error + (dtype \<times> cell list)" where
  "ms_column lib d cells =
     (if is_datetime64_any_dtype d then Inr (d, cells)
      else (case map_cells (ms_cell lib) cells of
              Inl e \<Rightarrow> Inl e | Inr ts \<Rightarrow> Inr (Datetime64T None, ts)))"

definition coerce_column :: "pandas \<Rightarrow> bool \<Rightarrow> dtype \<Rightarrow> cell list \<Rightarrow> dtype \<times> cell list" where
  "coerce_column lib dayfirst d cells =
     (if is_datetime64_any_dtype d then (d, cells)
      else (Datetime64T None, map (coerce_cell lib dayfirst) cells))"

text \<open>\<open>time_col or self.detect_time_col(df)\<close>: an absent or empty argument is falsy.\<close>

definition resolve_col :: "table \<Rightarrow> string option \<Rightarrow> string option" where
  "resolve_col t time_col =
     (case time_col of
        Some c \<Rightarrow> if c \<noteq> [] then Some c else detect_time_col t None
      | None \<Rightarrow> detect_time_col t None)"

definition convert_column ::
  "pandas \<Rightarrow> bool \<Rightarrow> string \<Rightarrow> dtype \<Rightarrow> cell list \<Rightarrow> error + (dtype \<times> cell list)" where
  "convert_column lib dayfirst col d cells =
     (if lower col = ''year'' then year_column cells
      else if lower col = ''timestamp'' then ms_column lib d cells
      else Inr (coerce_column lib dayfirst d cells))"

text \<open>
  The guarded inference: run only on three entries or more; an exception, no result or an
  empty result leave the default.
\<close>

definition infer_time_freq :: "pandas \<Rightarrow> table \<Rightarrow> string" where
  "infer_time_freq lib t =
     (if length (rows t) \<ge> 3 then
        (case infer_freq lib (index_dtype t) (index_cells t) of
           Inl e \<Rightarrow> ''D''
         | Inr None \<Rightarrow> ''D''
         | Inr (Some inferred) \<Rightarrow> if inferred \<noteq> [] then inferred else ''D'')
      else ''D'')"

definition to_time ::
  "DFCleaner \<Rightarrow> pandas \<Rightarrow> ref \<Rightarrow> string option \<Rightarrow> bool \<Rightarrow> heap
     \<Rightarrow> error + ((ref \<times> string) \<times> heap)" where
  "to_time self lib df time_col dayfirst h =
     (case df_copy df h of
        (df1, h1) \<Rightarrow>
          (case resolve_col (h1 ! df1) time_col of
             None \<Rightarrow> Inr ((df1, ''D''), h1)
           | Some col \<Rightarrow>
               if col = [] then Inr ((df1, ''D''), h1)
               else
                 (case get_column col (h1 ! df1) of
                    Inl e \<Rightarrow> Inl e
                  | Inr (p, d, cells) \<Rightarrow>
                      (case convert_column lib dayfirst col d cells of
                         Inl e \<Rightarrow> Inl e
                       | Inr (d', cells') \<Rightarrow>
                           (case apply_timezone self df1
                                   (h1[df1 := set_index p (set_column p d' cells' (h1 ! df1))]) of
                              Inl e \<Rightarrow> Inl e
                            | Inr (df2, h2) \<Rightarrow>
                                Inr ((df2, infer_time_freq lib (h2 ! df2)), h2))))))"

section \<open>Numeric normalisation\<close>

definition is_space :: "char \<Rightarrow> bool" where
  "is_space c = (c \<in> set [CHR '' '', CHR 0x09, CHR 0x0A, CHR 0x0B, CHR 0x0C, CHR 0x0D])"

text \<open>An optional sign: whether it is a minus, and the rest.\<close>

fun take_sign :: "string \<Rightarrow> bool \<times> string" where
  "take_sign [] = (False, [])"
| "take_sign (c # cs) =
     (if c = CHR ''-'' then (True, cs) else if c = CHR ''+'' then (False, cs) else (False, c # cs))"

text \<open>After the digits: an optional point with more digits; the fraction digits, whether a point was read, the rest.\<close>

fun take_fraction :: "string \<Rightarrow> string \<times> bool \<times> string" where
  "take_fraction [] = ([], False, [])"
| "take_fraction (c # cs) =
     (if c = CHR ''.'' then (takeWhile is_digit cs, True, dropWhile is_digit cs)
      else ([], False, c # cs))"

text \<open>An optional exponent, which needs a digit: its value if one was read, and the rest.\<close>

fun take_exponent :: "string \<Rightarrow> int option \<times> string" where
  "take_exponent [] = (None, [])"
| "take_exponent (c # cs) =
     (if c = CHR ''e'' \<or> c = CHR ''E'' then
        (case take_sign cs of
           (neg, ds) \<Rightarrow>
             if takeWhile is_digit ds = [] then (None, c # cs)
             else (Some ((if neg then - 1 else 1) * int (digits_value (takeWhile is_digit ds))),
                   dropWhile is_digit ds))
      else (None, c # cs))"

text \<open>
  The value of sign, digits and decimal exponent, kept exact: pandas rounds it to a float.
\<close>

definition decimal_value :: "bool \<Rightarrow> nat \<Rightarrow> int \<Rightarrow> rat" where
  "decimal_value neg m e =
     (if neg then - 1 else 1) * (if e \<ge> 0 then of_nat m * 10 ^ nat e else of_nat m / 10 ^ nat (- e))"

text \<open>The words that are read as a float of their own, whatever their case.\<close>

definition special_value :: "string \<Rightarrow> cell" where
  "special_value s =
     (case take_sign (lower s) of
        (neg, w) \<Rightarrow>
          if w = ''inf'' \<or> w = ''infinity'' then (if neg then NInf else PInf) else NaN)"

text \<open>
  \<open>pd.to_numeric(text, errors='coerce')\<close> on one text: blanks, a sign, digits with an
  optional point, an optional exponent, blanks. A text without point and exponent is an
  integer. A text that is no number is missing; so is the word \<open>nan\<close>.
\<close>

definition to_numeric_text :: "string \<Rightarrow> cell" where
  "to_numeric_text s =
     (case take_sign (dropWhile is_space s) of
        (neg, s2) \<Rightarrow>
          (case take_fraction (dropWhile is_digit s2) of
             (fp, point, s4) \<Rightarrow>
               (case take_exponent s4 of
                  (ex, s5) \<Rightarrow>
                    if (takeWhile is_digit s2 = [] \<and> fp = []) \<or> dropWhile is_space s5 \<noteq> []
                    then special_value s
                    else if \<not> point \<and> ex = None
                    then IntV ((if neg then - 1 else 1) * int (digits_value (takeWhile is_digit s2)))
                    else Flt (decimal_value neg (digits_value (takeWhile is_digit s2 @ fp))
                                ((case ex of None \<Rightarrow> 0 | Some e \<Rightarrow> e) - int (length fp))))))"

text \<open>\<open>.str.replace(pat, rep, regex=False)\<close> on one cell: a cell that is no text becomes missing.\<close>

definition str_replace :: "string \<Rightarrow> string \<Rightarrow> cell \<Rightarrow> cell" where
  "str_replace pat rep c = (case c of Str s \<Rightarrow> Str (replace_lit pat rep s) | _ \<Rightarrow> NaN)"

definition to_numeric :: "cell \<Rightarrow> cell" where
  "to_numeric c = (case c of Str s \<Rightarrow> to_numeric_text s | _ \<Rightarrow> c)"

text \<open>The chain of replacements of \<open>cleaning_values\<close>, in its order, and the coercion.\<close>

definition clean_cell :: "cell \<Rightarrow> cell" where
  "clean_cell c =
     to_numeric
       (str_replace ''$'' []
         (str_replace '','' []
           (str_replace ''%'' []
             (str_replace ''.'' ''NaN''
               (str_replace ''#DIV/0!'' ''NaN'' c)))))"

text \<open>
  The \<open>.str\<close> accessor raises AttributeError on a column that pandas does not infer to be
  textual: one with values but whose first value is no text and whose values are all
  integers and floats, or all timestamps; and one of missing timestamps only.
\<close>

definition is_number :: "cell \<Rightarrow> bool" where
  "is_number c = (case c of IntV v \<Rightarrow> True | Flt q \<Rightarrow> True | PInf \<Rightarrow> True | NInf \<Rightarrow> True
                  | NaN \<Rightarrow> True | _ \<Rightarrow> False)"

definition is_datetime :: "cell \<Rightarrow> bool" where
  "is_datetime c = (case c of Ts v \<Rightarrow> True | NaT \<Rightarrow> True | NaN \<Rightarrow> True | _ \<Rightarrow> False)"

definition str_accessor_ok :: "cell list \<Rightarrow> bool" where
  "str_accessor_ok cells =
     (case filter (\<lambda>c. \<not> is_missing c) cells of
        [] \<Rightarrow> NaT \<notin> set cells
      | Str s # cs \<Rightarrow> True
      | Ts v # cs \<Rightarrow> \<not> list_all is_datetime cells
      | c # cs \<Rightarrow> \<not> list_all is_number cells)"

definition clean_column :: "cell list \<Rightarrow> error + (dtype \<times> cell list)" where
  "clean_column cells =
     (if str_accessor_ok cells then Inr (numeric_column (map clean_cell cells))
      else Inl AttributeError)"

text \<open>
  The loop over the names of the text columns; each pass reads the column by name from the
  copy and assigns the cleaned column to it.
\<close>

fun clean_columns :: "string list \<Rightarrow> ref \<Rightarrow> heap \<Rightarrow> error + heap" where
  "clean_columns [] df h = Inr h"
| "clean_columns (col # cols) df h =
     (case get_column col (h ! df) of
        Inl e \<Rightarrow> Inl e
      | Inr (p, d, cells) \<Rightarrow>
          (case clean_column cells of
             Inl e \<Rightarrow> Inl e
           | Inr (d', cells') \<Rightarrow> clean_columns cols df (h[df := set_column p d' cells' (h ! df)])))"

text \<open>\<open>df.select_dtypes(include=['object', 'string']).columns\<close>; the text dtype here is \<open>ObjectT\<close>.\<close>

definition select_dtypes_text :: "table \<Rightarrow> string list" where
  "select_dtypes_text t = map fst (filter (\<lambda>c. snd c = ObjectT) (columns t))"

definition cleaning_values :: "ref \<Rightarrow> heap \<Rightarrow> error + (ref \<times> heap)" where
  "cleaning_values df h =
     (case df_copy df h of
        (df1, h1) \<Rightarrow>
          (case clean_columns (select_dtypes_text (h1 ! df1)) df1 h1 of
             Inl e \<Rightarrow> Inl e
           | Inr h2 \<Rightarrow> Inr (df1, h2)))"

section \<open>Reading a table\<close>

text \<open>
  A table as pandas builds it: the column names are distinct and every row holds one cell
  per column. \<open>cell_at t i j\<close> is the cell of row \<open>i\<close> in column \<open>j\<close>, \<open>dtype_at t j\<close>
  the dtype of column \<open>j\<close>.
\<close>

definition well_formed :: "table \<Rightarrow> bool" where
  "well_formed t =
     (distinct (map fst (columns t))
      \<and> list_all (\<lambda>r. length (snd r) = length (columns t)) (rows t))"

definition cell_at :: "table \<Rightarrow> nat \<Rightarrow> nat \<Rightarrow> cell" where
  "cell_at t i j = snd (rows t ! i) ! j"

definition dtype_at :: "table \<Rightarrow> nat \<Rightarrow> dtype" where
  "dtype_at t j = snd (columns t ! j)"

text \<open>The cleaned cell as it stands in a column of dtype \<open>d\<close>: a float in a float column.\<close>

definition cleaned :: "dtype \<Rightarrow> cell \<Rightarrow> cell" where
  "cleaned d c = (if d = Int64T then clean_cell c else promote (clean_cell c))"

section \<open>Example inputs\<close>

text \<open>
  A stand-in for the pandas routines, for the examples below: it reads a text of digits as
  that many nanoseconds, rejects every text under a unit, and infers a weekly frequency.
\<close>

definition example_lib :: pandas where
  "example_lib =
     \<lparr>parse_datetime = (\<lambda>dayfirst s. if s \<noteq> [] \<and> list_all is_digit s then Some (int (digits_value s)) else None),
      text_with_unit = (\<lambda>s. Inl ValueError),
      infer_freq = (\<lambda>d cells. Inr (Some ''W-SUN''))\<rparr>"

definition prices :: table where
  "prices =
     \<lparr>columns = [(''price'', ObjectT), (''volume'', Int64T)],
      index_dtype = Int64T,
      rows = [(IntV 0, [Str ''12%'', IntV 7]), (IntV 1, [Str ''#DIV/0!'', IntV 8]),
              (IntV 2, [Str ''$1,234.56'', IntV 9])]\<rparr>"

definition two_dates :: table where
  "two_dates =
     \<lparr>columns = [(''Date'', ObjectT), (''v'', Int64T)],
      index_dtype = Int64T,
      rows = [(IntV 0, [Str ''86400000000000'', IntV 7]), (IntV 1, [Str ''soon'', IntV 8])]\<rparr>"

text \<open>The nanosecond count of a civil date and time of day, for writing examples.\<close>

definition instant :: "int \<Rightarrow> int \<Rightarrow> int \<Rightarrow> int \<Rightarrow> int \<Rightarrow> int \<Rightarrow> int" where
  "instant y m d hh mi ss =
     (days_from_civil y m d * 86400 + hh * 3600 + mi * 60 + ss) * 1000000000"

text \<open>An index entry in the current period: a timestamp at or after the boundary.\<close>

definition at_or_after :: "cell \<Rightarrow> timestamp \<Rightarrow> bool" where
  "at_or_after c b = (case c of Ts v \<Rightarrow> value b \<le> v | _ \<Rightarrow> False)"

text \<open>Wednesday 2024-06-12, 15:30 UTC, on a machine whose local zone is UTC.\<close>

definition wednesday :: clock where
  "wednesday = \<lparr>now_utc = instant 2024 6 12 15 30 0, local_utcoffset = 0\<rparr>"

definition first_of_august :: clock where
  "first_of_august = \<lparr>now_utc = instant 2024 8 1 9 0 0, local_utcoffset = 0\<rparr>"

definition june_naive :: table where
  "june_naive =
     \<lparr>columns = [(''v'', Int64T)],
      index_dtype = Datetime64T None,
      rows = [(Ts (instant 2024 6 11 0 0 0), [IntV 1]), (Ts (instant 2024 6 9 0 0 0), [IntV 2]),
              (Ts (instant 2024 6 10 0 0 0), [IntV 3]), (Ts (instant 2024 5 31 0 0 0), [IntV 4])]\<rparr>"

definition june_utc :: table where
  "june_utc =
     \<lparr>columns = [(''v'', Int64T)],
      index_dtype = Datetime64T (Some (Zone 0)),
      rows = [(Ts (instant 2024 6 10 10 0 0), [IntV 1]), (Ts (instant 2024 6 9 0 0 0), [IntV 2])]\<rparr>"

definition monday_utc :: table where
  "monday_utc =
     \<lparr>columns = [(''v'', Int64T)],
      index_dtype = Datetime64T (Some (Zone 0)),
      rows = [(Ts (instant 2024 6 10 10 0 0), [IntV 1])]\<rparr>"

definition this_week :: table where
  "this_week =
     \<lparr>columns = [(''v'', Int64T), (''w'', ObjectT)],
      index_dtype = Datetime64T None,
      rows = [(Ts (instant 2024 6 12 0 0 0), [IntV 1, Str ''a'']),
              (Ts (instant 2024 6 10 0 0 0), [IntV 2, Str ''b''])]\<rparr>"

definition years :: table where
  "years =
     \<lparr>columns = [(''Year'', ObjectT), (''v'', Int64T)],
      index_dtype = Int64T,
      rows = [(IntV 0, [Str ''2021'', IntV 7]), (IntV 1, [Str ''unknown'', IntV 8])]\<rparr>"

definition codes :: table where
  "codes =
     \<lparr>columns = [(''code'', ObjectT)],
      index_dtype = Int64T,
      rows = [(IntV 0, [IntV 1]), (IntV 1, [IntV 2])]\<rparr>"

definition ticks :: table where
  "ticks =
     \<lparr>columns = [(''Timestamp'', Int64T), (''v'', Int64T)],
      index_dtype = Int64T,
      rows = [(IntV 0, [IntV 1700000000000, IntV 7]), (IntV 1, [IntV 1700000060000, IntV 8])]\<rparr>"

definition dated_ticks :: table where
  "dated_ticks =
     \<lparr>columns = [(''date'', ObjectT), (''timestamp'', Int64T)],
      index_dtype = Int64T,
      rows = [(IntV 0, [Str ''86400000000000'', IntV 1700000000000])]\<rparr>"

section \<open>Time column detection: properties\<close>

lemma first_match_find:
  "first_match voc cols = List.find (\<lambda>c. lower c \<in> set voc) cols"
  by (induction cols) simp_all

text \<open>
  C8, as amended. \<open>detect_time_col\<close> returns the first column, in the order of the table,
  whose lowercased name is in the fixed vocabulary or equals the lowercased hint when the
  hint is a non-empty text, and returns none when there is no such column. An absent hint
  and the empty text add nothing to the vocabulary.
\<close>

theorem detect_time_col_first_match:
  "detect_time_col df custom_col =
     List.find (\<lambda>c. lower c \<in> set time_cols
                  \<or> (case custom_col of Some h \<Rightarrow> h \<noteq> [] \<and> lower c = lower h | None \<Rightarrow> False))
       (map fst (columns df))"
  by (cases custom_col)
     (simp_all add: detect_time_col_def vocabulary_def first_match_find disj_commute)

theorem detect_time_col_first_match_witness:
  "detect_time_col \<lparr>columns = [(''price'', Float64T), (''When'', ObjectT), (''Date'', ObjectT)],
                     index_dtype = Int64T, rows = []\<rparr> (Some ''WHEN'') = Some ''When''"
  using detect_time_col_first_match
    [of "\<lparr>columns = [(''price'', Float64T), (''When'', ObjectT), (''Date'', ObjectT)],
           index_dtype = Int64T, rows = []\<rparr>" "Some ''WHEN''"]
  by (simp add: time_cols_def lower_def lower_char_def)

text \<open>
  C8 as stated fails for the empty hint: the vocabulary extended by the lowercased hint
  would hold the empty name, so a column with the empty name would be the first match,
  where the code returns none.
\<close>

theorem detect_time_col_empty_hint_counterexample:
  "detect_time_col \<lparr>columns = [([], ObjectT)], index_dtype = Int64T, rows = []\<rparr> (Some []) = None
   \<and> List.find (\<lambda>c. lower c \<in> set (time_cols @ [lower []])) [[]] = Some []"
  by (simp add: detect_time_col_def vocabulary_def time_cols_def lower_def)

section \<open>Timezone policy: properties\<close>

lemma shift_index_dtype:
  "shift_index d t = Inr t' \<Longrightarrow> index_dtype t' = index_dtype t"
  by (auto simp: shift_index_def split: sum.splits)

text \<open>An entry that would leave the bounds makes the policy raise.\<close>

lemma apply_timezone_out_of_bounds:
  "apply_timezone \<lparr>timezone = Some (Zone (- 18000))\<rparr> 0
     [\<lparr>columns = [], index_dtype = Datetime64T None,
       rows = [(Ts 9223372036854775807, [])]\<rparr>] = Inl OutOfBoundsDatetime"
  by (simp add: apply_timezone_def is_datetime64_any_dtype_def index_tz_def tz_localize_def
      shift_index_def index_cells_def shift_def in_bounds_def nanos_def)

lemma apply_timezone_june:
  "apply_timezone \<lparr>timezone = Some (Zone 3600)\<rparr> 0 [june_naive] =
     Inr (0, [\<lparr>columns = [(''v'', Int64T)],
               index_dtype = Datetime64T (Some (Zone 3600)),
               rows = [(Ts (instant 2024 6 10 23 0 0), [IntV 1]),
                       (Ts (instant 2024 6 8 23 0 0), [IntV 2]),
                       (Ts (instant 2024 6 9 23 0 0), [IntV 3]),
                       (Ts (instant 2024 5 30 23 0 0), [IntV 4])]\<rparr>])"
  by code_simp

text \<open>
  C3. For every table and every timezone setting, when \<open>apply_timezone\<close> returns, running
  it again on the table it left returns as well and leaves that table, and so its index,
  as it is.
\<close>

theorem apply_timezone_idempotent:
  assumes "apply_timezone self df h = Inr (df', h1)"
  shows "df' = df \<and> apply_timezone self df h1 = Inr (df, h1)"
proof (cases "df < length h")
  case True
  with assms show ?thesis
    by (auto simp: apply_timezone_def is_datetime64_any_dtype_def index_tz_def tz_localize_def
        tz_convert_def split: dtype.splits option.splits sum.splits dest: shift_index_dtype)
next
  case False
  then have upd: "h[df := t] = h" for t
    by (simp add: list_update_beyond not_less)
  from assms have "df' = df" and "h1 = h"
    by (auto simp: apply_timezone_def upd split: if_splits option.splits sum.splits)
  with assms show ?thesis
    by simp
qed

theorem apply_timezone_idempotent_witness:
  "apply_timezone \<lparr>timezone = Some (Zone 3600)\<rparr> 0 [june_naive] =
     Inr (0, [\<lparr>columns = [(''v'', Int64T)],
               index_dtype = Datetime64T (Some (Zone 3600)),
               rows = [(Ts (instant 2024 6 10 23 0 0), [IntV 1]),
                       (Ts (instant 2024 6 8 23 0 0), [IntV 2]),
                       (Ts (instant 2024 6 9 23 0 0), [IntV 3]),
                       (Ts (instant 2024 5 30 23 0 0), [IntV 4])]\<rparr>])
   \<and> apply_timezone \<lparr>timezone = Some (Zone 3600)\<rparr> 0
       [\<lparr>columns = [(''v'', Int64T)],
         index_dtype = Datetime64T (Some (Zone 3600)),
         rows = [(Ts (instant 2024 6 10 23 0 0), [IntV 1]),
                 (Ts (instant 2024 6 8 23 0 0), [IntV 2]),
                 (Ts (instant 2024 6 9 23 0 0), [IntV 3]),
                 (Ts (instant 2024 5 30 23 0 0), [IntV 4])]\<rparr>] =
     Inr (0, [\<lparr>columns = [(''v'', Int64T)],
               index_dtype = Datetime64T (Some (Zone 3600)),
               rows = [(Ts (instant 2024 6 10 23 0 0), [IntV 1]),
                       (Ts (instant 2024 6 8 23 0 0), [IntV 2]),
                       (Ts (instant 2024 6 9 23 0 0), [IntV 3]),
                       (Ts (instant 2024 5 30 23 0 0), [IntV 4])]\<rparr>])"
  using apply_timezone_idempotent [OF apply_timezone_june] apply_timezone_june
  by simp

section \<open>Timestamp indexing: properties\<close>

lemmas to_time_defs = to_time_def df_copy_def resolve_col_def detect_time_col_def vocabulary_def
  time_cols_def lower_def lower_char_def get_column_def convert_column_def ms_column_def
  coerce_column_def is_datetime64_any_dtype_def set_column_def set_index_def drop_at_def
  apply_timezone_def index_tz_def tz_localize_def tz_convert_def shift_index_def shift_def
  index_cells_def nanos_def infer_time_freq_def in_bounds_def

lemma to_time_two_dates:
  "to_time \<lparr>timezone = None\<rparr> example_lib 0 None False [two_dates]
     = Inr ((1, ''D''),
            [two_dates,
             \<lparr>columns = [(''v'', Int64T)], index_dtype = Datetime64T None,
               rows = [(Ts 86400000000000, [IntV 7]), (NaT, [IntV 8])]\<rparr>])"
  by (simp add: to_time_defs two_dates_def example_lib_def is_digit_def digits_value_def
      digit_value_def)

text \<open>
  C5. When no column is passed and the detector finds none, \<open>to_time\<close> returns a new table
  with the contents of the one it was given (same columns, rows and index), and the
  frequency \<open>D\<close>.
\<close>

theorem to_time_no_time_column:
  "detect_time_col (h ! df) None = None \<Longrightarrow>
   to_time self lib df None dayfirst h = Inr ((length h, ''D''), h @ [h ! df])"
  by (simp add: to_time_def df_copy_def resolve_col_def)

theorem to_time_no_time_column_witness:
  "detect_time_col ([prices] ! 0) None = None
   \<and> to_time \<lparr>timezone = None\<rparr> example_lib 0 None False [prices]
       = Inr ((1, ''D''), [prices, prices])"
proof -
  have h: "detect_time_col ([prices] ! 0) None = None"
    by (simp add: detect_time_col_def vocabulary_def time_cols_def prices_def lower_def
        lower_char_def)
  show ?thesis
    using h to_time_no_time_column [OF h, of "\<lparr>timezone = None\<rparr>" example_lib False] by simp
qed

text \<open>
  C6. Whenever the index of the table that \<open>to_time\<close> returns has fewer than 3 entries, the
  frequency it returns is \<open>D\<close>, whatever the entries are and whatever the inference would say.
\<close>

theorem to_time_short_index:
  "to_time self lib df time_col dayfirst h = Inr ((df', time_freq), h') \<Longrightarrow>
   length (index_cells (h' ! df')) < 3 \<Longrightarrow> time_freq = ''D''"
  by (auto simp: to_time_def df_copy_def infer_time_freq_def index_cells_def
           split: option.splits if_splits sum.splits prod.splits)

theorem to_time_short_index_witness:
  "to_time \<lparr>timezone = None\<rparr> example_lib 0 None False [two_dates]
     = Inr ((1, ''D''),
            [two_dates,
             \<lparr>columns = [(''v'', Int64T)], index_dtype = Datetime64T None,
               rows = [(Ts 86400000000000, [IntV 7]), (NaT, [IntV 8])]\<rparr>])
   \<and> length (index_cells ([two_dates,
             \<lparr>columns = [(''v'', Int64T)], index_dtype = Datetime64T None,
               rows = [(Ts 86400000000000, [IntV 7]), (NaT, [IntV 8])]\<rparr>] ! 1)) < 3"
proof -
  have short: "length (index_cells ([two_dates,
             \<lparr>columns = [(''v'', Int64T)], index_dtype = Datetime64T None,
               rows = [(Ts 86400000000000, [IntV 7]), (NaT, [IntV 8])]\<rparr>] ! 1)) < 3"
    by (simp add: index_cells_def)
  have "''D'' = ''D''"
    by (rule to_time_short_index [OF to_time_two_dates short])
  with to_time_two_dates short show ?thesis
    by blast
qed

section \<open>Period trimming: properties\<close>

lemma tz_boundary: "tz (boundary clk z time_freq) = z"
  by (cases z)
     (simp_all add: boundary_def today_of_def timestamp_now_def date_today_def Let_def
        minus_days_def replace_day1_def timestamp_of_date_def ts_localize_def split: prod.splits)

lemma select_rows_filter:
  "map snd (filter fst (zip (map Q rs) rs)) = filter Q rs"
  by (induction rs) simp_all

lemma clean_dates_result:
  assumes "index_dtype (h ! df) = Datetime64T z"
  shows "clean_dates clk df time_freq h =
           Inr (length h + 2,
                h @ [h ! df,
                     (h ! df)\<lparr>rows := filter (\<lambda>r. cell_lt (fst r) (value (boundary clk z time_freq)))
                                          (rows (h ! df))\<rparr>,
                     sort_index ((h ! df)\<lparr>rows := filter (\<lambda>r. cell_lt (fst r) (value (boundary clk z time_freq)))
                                          (rows (h ! df))\<rparr>)])"
  using assms
  by (simp add: clean_dates_def df_copy_def alloc_def index_tz_def index_lt_def tz_boundary
      select_rows_def index_cells_def select_rows_filter nth_append comp_def)

lemma cell_lt_not_missing: "cell_lt c b \<Longrightarrow> \<not> is_missing c"
  by (auto simp: cell_lt_def is_missing_def split: cell.splits)

lemma cell_lt_timestamp: "cell_lt c b \<Longrightarrow> (case c of Ts v \<Rightarrow> True | _ \<Rightarrow> False)"
  by (auto simp: cell_lt_def split: cell.splits)

lemma sort_index_kept:
  assumes "\<forall>r \<in> set rs. cell_lt (fst r) b"
  shows "rows (sort_index (t\<lparr>rows := rs\<rparr>)) = sort_key (\<lambda>r. sort_value (fst r)) rs"
proof -
  have "filter (\<lambda>r. \<not> is_missing (fst r)) rs = rs"
    using assms by (auto simp: filter_id_conv dest: cell_lt_not_missing)
  moreover have "filter (\<lambda>r. is_missing (fst r)) rs = []"
    using assms by (auto simp: filter_empty_conv dest: cell_lt_not_missing)
  ultimately show ?thesis
    by (simp add: sort_index_def)
qed

text \<open>
  With a naive index the boundaries are the ones of the examples: on Wednesday 2024-06-12
  the week starts on Monday 2024-06-10 at 00:00 and the month on 2024-06-01; on 2024-08-01
  the quarter starts on 2024-07-01, for a naive and for an aware index.
\<close>

lemma boundary_examples:
  "boundary wednesday None ''W'' = \<lparr>value = instant 2024 6 10 0 0 0, tz = None\<rparr>"
  "boundary wednesday None ''M'' = \<lparr>value = instant 2024 6 1 0 0 0, tz = None\<rparr>"
  "boundary first_of_august None ''Q'' = \<lparr>value = instant 2024 7 1 0 0 0, tz = None\<rparr>"
  "boundary first_of_august (Some (Zone 0)) ''Q''
     = \<lparr>value = instant 2024 7 1 0 0 0, tz = Some (Zone 0)\<rparr>"
  by code_simp+

lemma clean_dates_naive_week:
  "clean_dates wednesday 0 ''W'' [june_naive] =
     Inr (3, [june_naive, june_naive,
              june_naive\<lparr>rows := [(Ts (instant 2024 6 9 0 0 0), [IntV 2]),
                                  (Ts (instant 2024 5 31 0 0 0), [IntV 4])]\<rparr>,
              june_naive\<lparr>rows := [(Ts (instant 2024 5 31 0 0 0), [IntV 4]),
                                  (Ts (instant 2024 6 9 0 0 0), [IntV 2])]\<rparr>])"
  by code_simp

text \<open>
  C1, at the input where the code departs from it. The index is aware (UTC) and the clock
  reads Wednesday 2024-06-12 15:30 UTC: the weekly boundary is Monday 2024-06-10 15:30, not
  00:00, the monthly one is 2024-06-01 15:30, and the row of Monday 2024-06-10 10:00, which
  lies in the current week, is kept.
\<close>

theorem clean_dates_aware_week_keeps_monday:
  "boundary wednesday (Some (Zone 0)) ''W''
     = \<lparr>value = instant 2024 6 10 15 30 0, tz = Some (Zone 0)\<rparr>
   \<and> boundary wednesday (Some (Zone 0)) ''M''
     = \<lparr>value = instant 2024 6 1 15 30 0, tz = Some (Zone 0)\<rparr>
   \<and> clean_dates wednesday 0 ''W'' [june_utc] =
       Inr (3, [june_utc, june_utc, june_utc,
                june_utc\<lparr>rows := [(Ts (instant 2024 6 9 0 0 0), [IntV 2]),
                                  (Ts (instant 2024 6 10 10 0 0), [IntV 1])]\<rparr>])"
  by code_simp

text \<open>
  What holds of every table with a timestamp index and of every frequency: \<open>clean_dates\<close>
  returns a table with the columns of its input, whose index entries are all timestamps in
  ascending order; and it returns no rows when every index entry is at or after the
  boundary that the code computes, which for an aware index is not always the start of the
  current period.
\<close>

lemma clean_dates_sorted:
  assumes "index_dtype (h ! df) = Datetime64T z"
  shows "\<exists>df' h'. clean_dates clk df time_freq h = Inr (df', h')
           \<and> columns (h' ! df') = columns (h ! df)
           \<and> sorted (map sort_value (index_cells (h' ! df')))
           \<and> list_all (\<lambda>c. case c of Ts v \<Rightarrow> True | _ \<Rightarrow> False) (index_cells (h' ! df'))
           \<and> (list_all (\<lambda>c. at_or_after c (boundary clk z time_freq)) (index_cells (h ! df))
                \<longrightarrow> rows (h' ! df') = [])"
proof -
  define b where "b = value (boundary clk z time_freq)"
  define kept where "kept = filter (\<lambda>r. cell_lt (fst r) b) (rows (h ! df))"
  define t where "t = sort_index ((h ! df)\<lparr>rows := kept\<rparr>)"
  define h' where "h' = h @ [h ! df, (h ! df)\<lparr>rows := kept\<rparr>, t]"
  have run: "clean_dates clk df time_freq h = Inr (length h + 2, h')"
    unfolding h'_def t_def kept_def b_def by (rule clean_dates_result [OF assms])
  have at: "h' ! (length h + 2) = t"
    by (simp add: h'_def nth_append)
  have all_lt: "\<forall>r \<in> set kept. cell_lt (fst r) b"
    by (simp add: kept_def)
  have rows_t: "rows t = sort_key (\<lambda>r. sort_value (fst r)) kept"
    unfolding t_def by (rule sort_index_kept [OF all_lt])
  have cols: "columns t = columns (h ! df)"
    by (simp add: t_def sort_index_def)
  have "sorted (map (\<lambda>r. sort_value (fst r)) (sort_key (\<lambda>r. sort_value (fst r)) kept))"
    by (rule sorted_sort_key)
  then have srt: "sorted (map sort_value (index_cells t))"
    by (simp add: index_cells_def rows_t comp_def)
  have ts: "list_all (\<lambda>c. case c of Ts v \<Rightarrow> True | _ \<Rightarrow> False) (index_cells t)"
    unfolding index_cells_def rows_t list_all_iff
  proof
    fix c
    assume "c \<in> set (map fst (sort_key (\<lambda>r. sort_value (fst r)) kept))"
    then obtain r where "r \<in> set kept" and "c = fst r"
      by auto
    with all_lt have "cell_lt c b"
      by blast
    then show "case c of Ts v \<Rightarrow> True | _ \<Rightarrow> False"
      by (rule cell_lt_timestamp)
  qed
  have empty: "rows t = []"
    if *: "list_all (\<lambda>c. at_or_after c (boundary clk z time_freq)) (index_cells (h ! df))"
  proof -
    have "\<not> cell_lt (fst r) b" if "r \<in> set (rows (h ! df))" for r
    proof -
      from * that have "at_or_after (fst r) (boundary clk z time_freq)"
        by (simp add: list_all_iff index_cells_def)
      then show ?thesis
        by (cases "fst r") (simp_all add: at_or_after_def cell_lt_def b_def)
    qed
    then have "kept = []"
      by (simp add: kept_def filter_empty_conv)
    then show ?thesis
      by (simp add: rows_t)
  qed
  show ?thesis
  proof (intro exI conjI)
    show "clean_dates clk df time_freq h = Inr (length h + 2, h')"
      by (rule run)
    show "columns (h' ! (length h + 2)) = columns (h ! df)"
      unfolding at by (rule cols)
    show "sorted (map sort_value (index_cells (h' ! (length h + 2))))"
      unfolding at by (rule srt)
    show "list_all (\<lambda>c. case c of Ts v \<Rightarrow> True | _ \<Rightarrow> False) (index_cells (h' ! (length h + 2)))"
      unfolding at by (rule ts)
    show "list_all (\<lambda>c. at_or_after c (boundary clk z time_freq)) (index_cells (h ! df))
          \<longrightarrow> rows (h' ! (length h + 2)) = []"
      unfolding at using empty by blast
  qed
qed

lemma clean_dates_this_week:
  "clean_dates wednesday 0 ''W'' [this_week] =
     Inr (3, [this_week, this_week, this_week\<lparr>rows := []\<rparr>, this_week\<lparr>rows := []\<rparr>])"
  by code_simp

text \<open>
  C9, at an input where the code departs from it. The index is aware (UTC), the clock
  reads Wednesday 2024-06-12 15:30 UTC and the only row is of Monday 2024-06-10 10:00: it is
  at or after the start of the current week, Monday 00:00, so every row falls in the
  current period, yet \<open>clean_dates\<close> returns the table with that row and not an empty one.
\<close>

theorem clean_dates_aware_week_not_empty:
  "rows monday_utc = [(Ts (instant 2024 6 10 10 0 0), [IntV 1])]
   \<and> list_all (\<lambda>c. at_or_after c \<lparr>value = instant 2024 6 10 0 0 0, tz = Some (Zone 0)\<rparr>)
        (index_cells monday_utc)
   \<and> clean_dates wednesday 0 ''W'' [monday_utc] =
       Inr (3, [monday_utc, monday_utc, monday_utc, monday_utc])"
proof (intro conjI)
  show "rows monday_utc = [(Ts (instant 2024 6 10 10 0 0), [IntV 1])]"
    by (simp add: monday_utc_def)
  show "list_all (\<lambda>c. at_or_after c \<lparr>value = instant 2024 6 10 0 0 0, tz = Some (Zone 0)\<rparr>)
          (index_cells monday_utc)"
    by code_simp
  show "clean_dates wednesday 0 ''W'' [monday_utc] =
          Inr (3, [monday_utc, monday_utc, monday_utc, monday_utc])"
    by code_simp
qed

section \<open>Timestamp indexing: the parsing branches\<close>

lemma position_Some: "position x xs = Some p \<Longrightarrow> p < length xs \<and> xs ! p = x"
proof (induction xs arbitrary: p)
  case Nil
  then show ?case by simp
next
  case (Cons y ys)
  then show ?case
    by (cases "x = y") (auto simp: nth_Cons')
qed

lemma map_cells_Inr:
  "map_cells f cs = Inr ys \<Longrightarrow> length ys = length cs \<and> (\<forall>i < length cs. f (cs ! i) = Inr (ys ! i))"
proof (induction cs arbitrary: ys)
  case Nil
  then show ?case by simp
next
  case (Cons c cs)
  then show ?case
    by (auto split: sum.splits simp: nth_Cons')
qed

lemma set_index_entry:
  assumes "length cells = length (rows t)" and "i < length (rows t)"
    and "p < length (snd (rows t ! i))"
  shows "index_cells (set_index p (set_column p d cells t)) ! i = cells ! i"
  using assms by (simp add: index_cells_def set_index_def set_column_def)

lemma set_index_length:
  assumes "length cells = length (rows t)"
  shows "length (rows (set_index p (set_column p d cells t))) = length (rows t)"
  using assms by (simp add: set_index_def set_column_def)

lemma set_index_dtype:
  assumes "p < length (columns t)"
  shows "index_dtype (set_index p (set_column p d cells t)) = d"
  using assms by (simp add: set_index_def set_column_def)

lemma shift_index_entry:
  assumes "shift_index d t = Inr t'" and "i < length (rows t)"
  shows "length (rows t') = length (rows t) \<and> shift d (index_cells t ! i) = Inr (index_cells t' ! i)"
proof -
  from assms(1) obtain entries where
    m: "map_cells (shift d) (index_cells t) = Inr entries"
    and t': "t' = t\<lparr>rows := map (\<lambda>(r, c). (c, snd r)) (zip (rows t) entries)\<rparr>"
    by (auto simp: shift_index_def split: sum.splits)
  from map_cells_Inr [OF m] have len: "length entries = length (rows t)"
    and each: "shift d (index_cells t ! i) = Inr (entries ! i)"
    using assms(2) by (simp_all add: index_cells_def)
  from len assms(2) have "index_cells t' ! i = entries ! i"
    by (simp add: t' index_cells_def)
  with len each show ?thesis
    by (simp add: t')
qed

lemma apply_timezone_naive_entry:
  assumes run: "apply_timezone self df h = Inr (df', h')"
    and df: "df < length h" and naive: "index_dtype (h ! df) = Datetime64T None"
    and i: "i < length (rows (h ! df))" and entry: "index_cells (h ! df) ! i = Ts w"
  shows "df' = df
       \<and> index_cells (h' ! df') ! i
           = Ts (w - (case timezone self of None \<Rightarrow> 0 | Some z \<Rightarrow> nanos z))"
proof (cases "timezone self")
  case None
  have "tz_localize None (h ! df) = Inr (h ! df)"
    using naive by (simp add: tz_localize_def)
  with run naive None have "Inr (df, h[df := h ! df]) = (Inr (df', h') :: error + (ref \<times> heap))"
    by (simp add: apply_timezone_def is_datetime64_any_dtype_def)
  then have "df' = df" and "h' = h"
    by simp_all
  with entry None show ?thesis by simp
next
  case (Some z)
  have tzi: "index_tz (h ! df) = Inr None"
    using naive by (simp add: index_tz_def)
  from run naive Some tzi obtain t1 where
    loc: "tz_localize (Some z) (h ! df) = Inr t1" and res: "df' = df" "h' = h[df := t1]"
    by (auto simp: apply_timezone_def is_datetime64_any_dtype_def split: sum.splits)
  from loc naive obtain t' where
    sh: "shift_index (- nanos z) (h ! df) = Inr t'"
    and t1: "t1 = t'\<lparr>index_dtype := Datetime64T (Some z)\<rparr>"
    by (auto simp: tz_localize_def split: sum.splits)
  from shift_index_entry [OF sh i] entry have "shift (- nanos z) (Ts w) = Inr (index_cells t' ! i)"
    by simp
  then have "index_cells t' ! i = Ts (w - nanos z)"
    by (auto simp: shift_def split: if_splits)
  moreover have "index_cells (h' ! df') = index_cells t'"
    using df res t1 by (simp add: index_cells_def)
  ultimately show ?thesis
    using Some res by simp
qed

lemma instant_examples:
  "instant 2023 11 14 22 13 20 = 1700000000000000000"
  "instant 2023 11 14 22 14 20 = 1700000060000000000"
  "instant 2023 11 15 3 13 20 = 1700018000000000000"
  "instant 2023 11 15 3 14 20 = 1700018060000000000"
  by code_simp+

lemma to_time_ticks:
  "to_time \<lparr>timezone = None\<rparr> lib 0 None dayfirst [ticks] =
     Inr ((1, ''D''),
          [ticks,
           \<lparr>columns = [(''v'', Int64T)], index_dtype = Datetime64T None,
             rows = [(Ts (instant 2023 11 14 22 13 20), [IntV 7]),
                     (Ts (instant 2023 11 14 22 14 20), [IntV 8])]\<rparr>])"
  by (simp add: to_time_defs ticks_def instant_examples)

lemma to_time_ticks_utc:
  "to_time \<lparr>timezone = Some (Zone 0)\<rparr> lib 0 None dayfirst [ticks] =
     Inr ((1, ''D''),
          [ticks,
           \<lparr>columns = [(''v'', Int64T)], index_dtype = Datetime64T (Some (Zone 0)),
             rows = [(Ts (instant 2023 11 14 22 13 20), [IntV 7]),
                     (Ts (instant 2023 11 14 22 14 20), [IntV 8])]\<rparr>])"
  by (simp add: to_time_defs ticks_def instant_examples)

lemma to_time_ticks_west:
  "to_time \<lparr>timezone = Some (Zone (- 18000))\<rparr> lib 0 None dayfirst [ticks] =
     Inr ((1, ''D''),
          [ticks,
           \<lparr>columns = [(''v'', Int64T)], index_dtype = Datetime64T (Some (Zone (- 18000))),
             rows = [(Ts (instant 2023 11 15 3 13 20), [IntV 7]),
                     (Ts (instant 2023 11 15 3 14 20), [IntV 8])]\<rparr>])"
  by (simp add: to_time_defs ticks_def instant_examples)

lemma to_time_dated_ticks:
  "to_time \<lparr>timezone = None\<rparr> example_lib 0 None False [dated_ticks] =
     Inr ((1, ''D''),
          [dated_ticks,
           \<lparr>columns = [(''timestamp'', Int64T)], index_dtype = Datetime64T None,
             rows = [(Ts 86400000000000, [IntV 1700000000000])]\<rparr>])"
  by (simp add: to_time_defs dated_ticks_def example_lib_def is_digit_def digits_value_def
      digit_value_def)

text \<open>
  C4, as amended. When the column that \<open>to_time\<close> resolves (the argument, or else the first
  column the detector matches) is named \<open>timestamp\<close> in any case, is not yet a timestamp
  column, and \<open>to_time\<close> returns, each integer \<open>v\<close> of that column becomes the index entry
  that reads \<open>v\<close> milliseconds after the epoch on the wall clock: that instant itself when
  no zone or UTC is configured, and the same reading taken as local time of the configured
  zone otherwise.
\<close>

theorem to_time_timestamp_column:
  assumes run: "to_time self lib df time_col dayfirst h = Inr ((df', time_freq), h')"
    and col: "resolve_col (h ! df) time_col = Some col" and name: "lower col = ''timestamp''"
    and pos: "position col (map fst (columns (h ! df))) = Some p"
    and dt: "\<not> is_datetime64_any_dtype (snd (columns (h ! df) ! p))"
    and i: "i < length (rows (h ! df))" and wf: "p < length (snd (rows (h ! df) ! i))"
    and cell: "snd (rows (h ! df) ! i) ! p = IntV v"
  shows "index_cells (h' ! df') ! i
           = Ts (v * 1000000 - (case timezone self of None \<Rightarrow> 0 | Some z \<Rightarrow> nanos z))"
proof -
  define t where "t = h ! df"
  define cells where "cells = map (\<lambda>r. snd r ! p) (rows t)"
  from name have ne: "col \<noteq> []" and ny: "lower col \<noteq> ''year''"
    by (auto simp: lower_def)
  from pos have p: "p < length (columns t)"
    using position_Some [OF pos] by (simp add: t_def)
  have get: "get_column col t = Inr (p, snd (columns t ! p), cells)"
    using pos by (simp add: get_column_def t_def cells_def)
  from run col ne get obtain d' cells' where
    conv: "convert_column lib dayfirst col (snd (columns t ! p)) cells = Inr (d', cells')"
    and tz: "apply_timezone self (length h)
               ((h @ [t])[length h := set_index p (set_column p d' cells' t)]) = Inr (df', h')"
    by (auto simp: to_time_def df_copy_def t_def [symmetric] split: sum.splits prod.splits)
  from conv name ny dt obtain
    ms: "map_cells (ms_cell lib) cells = Inr cells'" and d': "d' = Datetime64T None"
    by (auto simp: convert_column_def ms_column_def t_def split: sum.splits)
  from map_cells_Inr [OF ms] have len: "length cells' = length (rows t)"
    and each: "\<And>k. k < length (rows t) \<Longrightarrow> ms_cell lib (cells ! k) = Inr (cells' ! k)"
    by (simp_all add: cells_def)
  from i have it: "i < length (rows t)"
    by (simp add: t_def)
  have "cells ! i = IntV v"
    using it cell by (simp add: cells_def t_def)
  with each [OF it] have ci: "cells' ! i = Ts (v * 1000000)"
    by (simp split: if_splits)
  define t2 where "t2 = set_index p (set_column p d' cells' t)"
  have t2i: "index_cells t2 ! i = Ts (v * 1000000)"
    unfolding t2_def using set_index_entry [OF len it, of p d'] wf ci by (simp add: t_def)
  have t2d: "index_dtype t2 = Datetime64T None"
    unfolding t2_def using set_index_dtype [OF p] d' by simp
  have t2l: "i < length (rows t2)"
    unfolding t2_def using set_index_length [OF len] it by simp
  have run2: "apply_timezone self (length h) (h @ [t2]) = Inr (df', h')"
    using tz by (simp add: t2_def)
  have lh2: "length h < length (h @ [t2])"
    by simp
  have naive2: "index_dtype ((h @ [t2]) ! length h) = Datetime64T None"
    using t2d by simp
  have i2: "i < length (rows ((h @ [t2]) ! length h))"
    using t2l by simp
  have entry2: "index_cells ((h @ [t2]) ! length h) ! i = Ts (v * 1000000)"
    using t2i by simp
  from apply_timezone_naive_entry [OF run2 lh2 naive2 i2 entry2] show ?thesis
    by blast
qed

theorem to_time_timestamp_column_witness:
  "to_time \<lparr>timezone = None\<rparr> example_lib 0 None False [ticks] =
     Inr ((1, ''D''),
          [ticks,
           \<lparr>columns = [(''v'', Int64T)], index_dtype = Datetime64T None,
             rows = [(Ts (instant 2023 11 14 22 13 20), [IntV 7]),
                     (Ts (instant 2023 11 14 22 14 20), [IntV 8])]\<rparr>])
   \<and> resolve_col ([ticks] ! 0) None = Some ''Timestamp''
   \<and> lower ''Timestamp'' = ''timestamp''
   \<and> position ''Timestamp'' (map fst (columns ([ticks] ! 0))) = Some 0
   \<and> snd (rows ([ticks] ! 0) ! 0) ! 0 = IntV 1700000000000
   \<and> index_cells ([ticks,
           \<lparr>columns = [(''v'', Int64T)], index_dtype = Datetime64T None,
             rows = [(Ts (instant 2023 11 14 22 13 20), [IntV 7]),
                     (Ts (instant 2023 11 14 22 14 20), [IntV 8])]\<rparr>] ! 1) ! 0
       = Ts (1700000000000 * 1000000)
   \<and> 1700000000000 * 1000000 = instant 2023 11 14 22 13 20"
proof -
  note run = to_time_ticks [of example_lib False]
  have col: "resolve_col ([ticks] ! 0) None = Some ''Timestamp''"
    by (simp add: resolve_col_def detect_time_col_def vocabulary_def time_cols_def ticks_def
        lower_def lower_char_def)
  have name: "lower ''Timestamp'' = ''timestamp''"
    by (simp add: lower_def lower_char_def)
  have pos: "position ''Timestamp'' (map fst (columns ([ticks] ! 0))) = Some 0"
    by (simp add: ticks_def)
  have dt: "\<not> is_datetime64_any_dtype (snd (columns ([ticks] ! 0) ! 0))"
    by (simp add: ticks_def is_datetime64_any_dtype_def)
  have i: "0 < length (rows ([ticks] ! 0))" and wf: "0 < length (snd (rows ([ticks] ! 0) ! 0))"
    by (simp_all add: ticks_def)
  have cell: "snd (rows ([ticks] ! 0) ! 0) ! 0 = IntV 1700000000000"
    by (simp add: ticks_def)
  have "index_cells ([ticks,
           \<lparr>columns = [(''v'', Int64T)], index_dtype = Datetime64T None,
             rows = [(Ts (instant 2023 11 14 22 13 20), [IntV 7]),
                     (Ts (instant 2023 11 14 22 14 20), [IntV 8])]\<rparr>] ! 1) ! 0
       = Ts (1700000000000 * 1000000
             - (case timezone \<lparr>timezone = None\<rparr> of None \<Rightarrow> 0 | Some z \<Rightarrow> nanos z))"
    by (rule to_time_timestamp_column [OF run col name pos dt i wf cell])
  then have entry: "index_cells ([ticks,
           \<lparr>columns = [(''v'', Int64T)], index_dtype = Datetime64T None,
             rows = [(Ts (instant 2023 11 14 22 13 20), [IntV 7]),
                     (Ts (instant 2023 11 14 22 14 20), [IntV 8])]\<rparr>] ! 1) ! 0
       = Ts (1700000000000 * 1000000)"
    by simp
  have inst: "(1700000000000 :: int) * 1000000 = instant 2023 11 14 22 13 20"
    by (simp add: instant_examples)
  from run col name pos cell entry inst show ?thesis
    by blast
qed

text \<open>
  C4 as stated fails in two ways. A \<open>timestamp\<close> column that stands after another
  recognised time column is not the one resolved: it is left as integers. And with a zone
  other than UTC configured, the reading 2023-11-14 22:13:20 is taken as local time of that
  zone: five hours west of UTC the entry is the instant 2023-11-15 03:13:20 UTC.
\<close>

theorem to_time_timestamp_counterexample:
  "to_time \<lparr>timezone = None\<rparr> example_lib 0 None False [dated_ticks] =
     Inr ((1, ''D''),
          [dated_ticks,
           \<lparr>columns = [(''timestamp'', Int64T)], index_dtype = Datetime64T None,
             rows = [(Ts 86400000000000, [IntV 1700000000000])]\<rparr>])
   \<and> to_time \<lparr>timezone = Some (Zone (- 18000))\<rparr> example_lib 0 None False [ticks] =
     Inr ((1, ''D''),
          [ticks,
           \<lparr>columns = [(''v'', Int64T)], index_dtype = Datetime64T (Some (Zone (- 18000))),
             rows = [(Ts (instant 2023 11 15 3 13 20), [IntV 7]),
                     (Ts (instant 2023 11 15 3 14 20), [IntV 8])]\<rparr>])
   \<and> instant 2023 11 15 3 13 20 \<noteq> instant 2023 11 14 22 13 20"
  using to_time_dated_ticks to_time_ticks_west [of example_lib False]
  by (simp add: instant_examples)

lemma year_cell_examples:
  "year_cell (Str ''2021'') = Inr (IntV 2021)"
  "year_cell (Str ''unknown'') = Inl ValueError"
  by code_simp+

lemma infer_failure_absorbed:
  "infer_freq lib (index_dtype t) (index_cells t) = Inl e \<Longrightarrow> infer_time_freq lib t = ''D''"
  by (simp add: infer_time_freq_def)

text \<open>
  C2, at inputs where the code departs from it. A \<open>year\<close> column with a text that is no
  year makes \<open>to_time\<close> raise ValueError: only the general branch asks pandas to coerce. A
  column argument that names no column raises KeyError, and \<open>cleaning_values\<close> raises
  AttributeError on an object column that holds integers.
\<close>

theorem to_time_raises:
  "to_time self lib 0 None dayfirst [years] = Inl ValueError
   \<and> to_time self lib 0 (Some ''when'') dayfirst [years] = Inl KeyError
   \<and> cleaning_values 0 [codes] = Inl AttributeError"
proof (intro conjI)
  show "to_time self lib 0 None dayfirst [years] = Inl ValueError"
    by (simp add: to_time_def df_copy_def resolve_col_def detect_time_col_def vocabulary_def
        time_cols_def years_def lower_def lower_char_def get_column_def convert_column_def
        year_column_def year_cell_examples del: year_cell.simps)
  show "to_time self lib 0 (Some ''when'') dayfirst [years] = Inl KeyError"
    by (simp add: to_time_def df_copy_def resolve_col_def years_def get_column_def)
  show "cleaning_values 0 [codes] = Inl AttributeError"
    by (simp add: cleaning_values_def df_copy_def select_dtypes_text_def codes_def get_column_def
        clean_column_def str_accessor_ok_def is_missing_def is_number_def)
qed

section \<open>Numeric normalisation: properties\<close>

lemma numeric_column_cells:
  assumes "numeric_column xs = (d, ys)"
  shows "length ys = length xs"
    and "i < length xs \<Longrightarrow> ys ! i = (if d = Int64T then xs ! i else promote (xs ! i))"
  using assms by (auto simp: numeric_column_def split: if_splits)

lemma set_column_names:
  "p < length (columns t) \<Longrightarrow> map fst (columns (set_column p d cs t)) = map fst (columns t)"
  by (simp add: set_column_def list_eq_iff_nth_eq nth_list_update)

lemma set_column_length:
  "length cs = length (rows t) \<Longrightarrow> length (rows (set_column p d cs t)) = length (rows t)"
  by (simp add: set_column_def)

lemma set_column_dtype:
  "j < length (columns t) \<Longrightarrow>
   dtype_at (set_column p d cs t) j = (if j = p then d else dtype_at t j)"
  by (simp add: set_column_def dtype_at_def nth_list_update)

lemma set_column_cell:
  assumes "length cs = length (rows t)" and "i < length (rows t)" and "j < length (snd (rows t ! i))"
  shows "cell_at (set_column p d cs t) i j = (if j = p then cs ! i else cell_at t i j)"
  using assms by (simp add: set_column_def cell_at_def nth_list_update)

lemma set_column_well_formed:
  assumes "well_formed t" and "length cs = length (rows t)" and "p < length (columns t)"
  shows "well_formed (set_column p d cs t)"
proof -
  have "distinct (map fst (columns (set_column p d cs t)))"
    using assms by (simp add: set_column_names well_formed_def)
  moreover have "list_all (\<lambda>r. length (snd r) = length (columns (set_column p d cs t)))
                   (rows (set_column p d cs t))"
    using assms
    by (auto simp: set_column_def well_formed_def list_all_iff dest!: set_zip_leftD)
  ultimately show ?thesis
    by (simp add: well_formed_def)
qed

lemma well_formed_row:
  "well_formed t \<Longrightarrow> i < length (rows t) \<Longrightarrow> length (snd (rows t ! i)) = length (columns t)"
  by (simp add: well_formed_def list_all_length)

lemma position_distinct:
  assumes "distinct xs" and "j < length xs"
  shows "position (xs ! j) xs = Some j"
  using assms
proof (induction xs arbitrary: j)
  case Nil
  then show ?case by simp
next
  case (Cons x xs)
  then show ?case
    by (cases j) auto
qed

lemma clean_columns_cells:
  assumes "df < length h" and "clean_columns cols df h = Inr h'"
    and "well_formed (h ! df)" and "distinct cols"
  shows "well_formed (h' ! df)
       \<and> map fst (columns (h' ! df)) = map fst (columns (h ! df))
       \<and> length (rows (h' ! df)) = length (rows (h ! df))
       \<and> (\<forall>j < length (columns (h ! df)). \<forall>i < length (rows (h ! df)).
            (if fst (columns (h ! df) ! j) \<in> set cols
             then cell_at (h' ! df) i j = cleaned (dtype_at (h' ! df) j) (cell_at (h ! df) i j)
             else cell_at (h' ! df) i j = cell_at (h ! df) i j
                  \<and> dtype_at (h' ! df) j = dtype_at (h ! df) j))"
  using assms
proof (induction cols arbitrary: h)
  case Nil
  then show ?case by simp
next
  case (Cons col cols)
  define t where "t = h ! df"
  from Cons.prems(2) obtain p d cells d' cells' where
    get: "get_column col t = Inr (p, d, cells)"
    and cc: "clean_column cells = Inr (d', cells')"
    and rest: "clean_columns cols df (h[df := set_column p d' cells' t]) = Inr h'"
    by (auto simp: t_def split: sum.splits prod.splits)
  from get have pos: "position col (map fst (columns t)) = Some p"
    and cells: "cells = map (\<lambda>r. snd r ! p) (rows t)"
    by (auto simp: get_column_def split: option.splits)
  from position_Some [OF pos] have p: "p < length (columns t)" and pcol: "fst (columns t ! p) = col"
    by auto
  from cc have nc: "numeric_column (map clean_cell cells) = (d', cells')"
    by (auto simp: clean_column_def split: if_splits)
  have len: "length cells' = length (rows t)"
    using numeric_column_cells(1) [OF nc] by (simp add: cells)
  have wft: "well_formed t"
    using Cons.prems(3) by (simp add: t_def)
  define t1 where "t1 = set_column p d' cells' t"
  have wf1: "well_formed t1"
    unfolding t1_def by (rule set_column_well_formed [OF wft len p])
  have names1: "map fst (columns t1) = map fst (columns t)"
    unfolding t1_def by (rule set_column_names [OF p])
  have rows1: "length (rows t1) = length (rows t)"
    unfolding t1_def by (rule set_column_length [OF len])
  have cols1: "length (columns t1) = length (columns t)"
    using names1 by (metis length_map)
  let ?h1 = "h[df := t1]"
  have at1: "?h1 ! df = t1" and l1: "df < length ?h1"
    using Cons.prems(1) by simp_all
  from rest have rest1: "clean_columns cols df ?h1 = Inr h'"
    by (simp add: t1_def)
  from Cons.prems(4) have dcols: "distinct cols" and notin: "col \<notin> set cols"
    by simp_all
  have wf1': "well_formed (?h1 ! df)"
    using wf1 at1 by simp
  note ih = Cons.IH [OF l1 rest1 wf1' dcols, unfolded at1]
  from ih have wf': "well_formed (h' ! df)"
    and names': "map fst (columns (h' ! df)) = map fst (columns t1)"
    and rows': "length (rows (h' ! df)) = length (rows t1)"
    by simp_all
  have cellwise:
    "if fst (columns t ! j) \<in> set (col # cols)
     then cell_at (h' ! df) i j = cleaned (dtype_at (h' ! df) j) (cell_at t i j)
     else cell_at (h' ! df) i j = cell_at t i j \<and> dtype_at (h' ! df) j = dtype_at t j"
    if j: "j < length (columns t)" and i: "i < length (rows t)" for i j
  proof -
    have j1: "j < length (columns t1)" and i1: "i < length (rows t1)"
      using j i cols1 rows1 by simp_all
    from ih j1 i1 have step:
      "if fst (columns t1 ! j) \<in> set cols
       then cell_at (h' ! df) i j = cleaned (dtype_at (h' ! df) j) (cell_at t1 i j)
       else cell_at (h' ! df) i j = cell_at t1 i j \<and> dtype_at (h' ! df) j = dtype_at t1 j"
      by blast
    have name1: "fst (columns t1 ! j) = fst (columns t ! j)"
      using names1 j j1 by (metis nth_map)
    have rowlen: "j < length (snd (rows t ! i))"
      using well_formed_row [OF wft i] j by simp
    have c1: "cell_at t1 i j = (if j = p then cells' ! i else cell_at t i j)"
      unfolding t1_def by (rule set_column_cell [OF len i rowlen])
    have d1: "dtype_at t1 j = (if j = p then d' else dtype_at t j)"
      unfolding t1_def by (rule set_column_dtype [OF j])
    show ?thesis
    proof (cases "j = p")
      case True
      then have "fst (columns t ! j) = col"
        using pcol by simp
      moreover have "cells' ! i = cleaned d' (cell_at t i p)"
        using numeric_column_cells(2) [OF nc, of i] i
        by (simp add: cells cleaned_def cell_at_def)
      ultimately show ?thesis
        using step name1 c1 d1 True notin by simp
    next
      case False
      have "fst (columns t ! j) \<noteq> col"
      proof
        assume "fst (columns t ! j) = col"
        then have same: "map fst (columns t) ! j = map fst (columns t) ! p"
          using pcol j p by simp
        from wft have "distinct (map fst (columns t))"
          by (simp add: well_formed_def)
        from nth_eq_iff_index_eq [OF this, of j p] same j p have "j = p"
          by simp
        with False show False by simp
      qed
      then show ?thesis
        using step name1 c1 d1 False by simp
    qed
  qed
  show ?case
    using wf' names' names1 rows' rows1 cellwise by (simp add: t_def [symmetric])
qed

lemma cleaning_values_cells:
  assumes wf: "well_formed (h ! df)" and run: "cleaning_values df h = Inr (df', h')"
    and j: "j < length (columns (h ! df))" and i: "i < length (rows (h ! df))"
  shows "if dtype_at (h ! df) j = ObjectT
         then cell_at (h' ! df') i j = cleaned (dtype_at (h' ! df') j) (cell_at (h ! df) i j)
         else cell_at (h' ! df') i j = cell_at (h ! df) i j
              \<and> dtype_at (h' ! df') j = dtype_at (h ! df) j"
proof -
  define t where "t = h ! df"
  define cols where "cols = select_dtypes_text t"
  let ?h1 = "h @ [t]"
  have at: "?h1 ! length h = t" and l1: "length h < length ?h1"
    by simp_all
  from run have df': "df' = length h" and loop: "clean_columns cols (length h) ?h1 = Inr h'"
    by (auto simp: cleaning_values_def df_copy_def t_def cols_def split: sum.splits)
  from wf have dn: "distinct (map fst (columns t))"
    by (simp add: well_formed_def t_def)
  then have dcols: "distinct cols"
    by (simp add: cols_def select_dtypes_text_def distinct_map_filter)
  have wf1: "well_formed (?h1 ! length h)"
    using wf by (simp add: t_def)
  have jt: "j < length (columns t)" and it: "i < length (rows t)"
    using j i by (simp_all add: t_def)
  have mem: "fst (columns t ! j) \<in> set cols \<longleftrightarrow> dtype_at t j = ObjectT"
  proof
    assume "fst (columns t ! j) \<in> set cols"
    then obtain c where c: "c \<in> set (columns t)" "snd c = ObjectT" "fst c = fst (columns t ! j)"
      by (auto simp: cols_def select_dtypes_text_def)
    then obtain k where k: "k < length (columns t)" "columns t ! k = c"
      by (auto simp: in_set_conv_nth)
    with c jt have "map fst (columns t) ! k = map fst (columns t) ! j"
      by simp
    with nth_eq_iff_index_eq [OF dn, of k j] k jt have "k = j"
      by simp
    with k c show "dtype_at t j = ObjectT"
      by (simp add: dtype_at_def)
  next
    assume "dtype_at t j = ObjectT"
    with jt have "columns t ! j \<in> set (filter (\<lambda>c. snd c = ObjectT) (columns t))"
      by (simp add: dtype_at_def)
    then show "fst (columns t ! j) \<in> set cols"
      unfolding cols_def select_dtypes_text_def by (metis image_eqI set_map)
  qed
  from clean_columns_cells [OF l1 loop wf1 dcols, unfolded at] jt it
  have "if fst (columns t ! j) \<in> set cols
        then cell_at (h' ! length h) i j = cleaned (dtype_at (h' ! length h) j) (cell_at t i j)
        else cell_at (h' ! length h) i j = cell_at t i j
             \<and> dtype_at (h' ! length h) j = dtype_at t j"
    by blast
  with mem show ?thesis
    by (simp add: df' t_def)
qed

lemmas numeric_defs = clean_cell_def str_replace_def to_numeric_def to_numeric_text_def
  is_space_def is_digit_def digits_value_def digit_value_def special_value_def lower_def
  lower_char_def decimal_value_def

lemma clean_cell_examples:
  "clean_cell (Str ''12%'') = IntV 12"
  "clean_cell (Str ''#DIV/0!'') = NaN"
  "clean_cell (Str ''$1,234.56'') = NaN"
  "clean_cell (Str ''$1,234'') = IntV 1234"
  by (simp_all add: numeric_defs)

lemma to_numeric_text_decimal:
  "to_numeric_text ''1234.56'' = Flt (30864 / 25)"
  by (simp add: numeric_defs)

lemma cleaning_values_prices:
  "cleaning_values 0 [prices] =
     Inr (1, [prices,
              \<lparr>columns = [(''price'', Float64T), (''volume'', Int64T)],
                index_dtype = Int64T,
                rows = [(IntV 0, [Flt 12, IntV 7]), (IntV 1, [NaN, IntV 8]),
                        (IntV 2, [NaN, IntV 9])]\<rparr>])"
  by (simp add: cleaning_values_def df_copy_def select_dtypes_text_def prices_def get_column_def
      clean_column_def str_accessor_ok_def is_missing_def numeric_column_def promote_def
      set_column_def clean_cell_examples)

section \<open>Copies\<close>

lemma prefix_kept:
  assumes "length h \<le> length h'" and "\<And>i. i < length h \<Longrightarrow> h' ! i = h ! i"
  shows "take (length h) h' = h"
  using assms by (simp add: list_eq_iff_nth_eq)

lemma apply_timezone_frame:
  assumes "apply_timezone self df h = Inr (df', h')"
  shows "df' = df \<and> length h' = length h \<and> (\<forall>i. i \<noteq> df \<longrightarrow> h' ! i = h ! i)"
  using assms
  by (auto simp: apply_timezone_def split: if_splits option.splits sum.splits)

lemma clean_columns_frame:
  "clean_columns cols df h = Inr h' \<Longrightarrow>
   length h' = length h \<and> (\<forall>i. i \<noteq> df \<longrightarrow> h' ! i = h ! i)"
proof (induction cols arbitrary: h)
  case Nil
  then show ?case by simp
next
  case (Cons col cols)
  from Cons.prems obtain p d cells d' cells' where
    step: "clean_columns cols df (h[df := set_column p d' cells' (h ! df)]) = Inr h'"
    by (auto split: sum.splits prod.splits)
  from Cons.IH [OF step] show ?case
    by auto
qed

lemma to_time_frame:
  assumes "to_time self lib df time_col dayfirst h = Inr ((df', time_freq), h')"
  shows "take (length h) h' = h \<and> df' = length h \<and> df' < length h'"
proof -
  have keep: "length h' = Suc (length h) \<and> df' = length h \<and> (\<forall>i < length h. h' ! i = h ! i)"
    using assms
    by (auto simp: to_time_def df_copy_def nth_append
        split: option.splits if_splits sum.splits prod.splits dest!: apply_timezone_frame)
  then have "take (length h) h' = h"
    by (intro prefix_kept) auto
  with keep show ?thesis
    by simp
qed

lemma clean_dates_frame:
  assumes "clean_dates clk df time_freq h = Inr (df', h')"
  shows "take (length h) h' = h \<and> df' = length h + 2 \<and> df' < length h'"
  using assms
  by (auto simp: clean_dates_def df_copy_def alloc_def split: sum.splits)

lemma cleaning_values_frame:
  assumes "cleaning_values df h = Inr (df', h')"
  shows "take (length h) h' = h \<and> df' = length h \<and> df' < length h'"
proof -
  from assms have run: "clean_columns (select_dtypes_text ((h @ [h ! df]) ! length h)) (length h) (h @ [h ! df]) = Inr h'"
    and df': "df' = length h"
    by (auto simp: cleaning_values_def df_copy_def split: sum.splits)
  from clean_columns_frame [OF run]
  have len: "length h' = Suc (length h)" and same: "\<And>i. i < length h \<Longrightarrow> h' ! i = h ! i"
    by (auto simp: nth_append)
  have "take (length h) h' = h"
    by (rule prefix_kept) (use len same in auto)
  with len df' show ?thesis
    by simp
qed

text \<open>
  C10. Whenever \<open>to_time\<close>, \<open>clean_dates\<close> or \<open>cleaning_values\<close> returns, every table
  object that existed before the call, the caller's table among them, is as it was, and
  the table returned is a new object.
\<close>

theorem operations_leave_the_input:
  "(to_time self lib df time_col dayfirst h = Inr ((df1, time_freq1), h1)
      \<longrightarrow> take (length h) h1 = h \<and> length h \<le> df1 \<and> df1 < length h1)
   \<and> (clean_dates clk df time_freq h = Inr (df2, h2)
      \<longrightarrow> take (length h) h2 = h \<and> length h \<le> df2 \<and> df2 < length h2)
   \<and> (cleaning_values df h = Inr (df3, h3)
      \<longrightarrow> take (length h) h3 = h \<and> length h \<le> df3 \<and> df3 < length h3)"
proof (intro conjI impI)
  assume "to_time self lib df time_col dayfirst h = Inr ((df1, time_freq1), h1)"
  from to_time_frame [OF this]
  show "take (length h) h1 = h" and "length h \<le> df1" and "df1 < length h1"
    by simp_all
next
  assume "clean_dates clk df time_freq h = Inr (df2, h2)"
  from clean_dates_frame [OF this]
  show "take (length h) h2 = h" and "length h \<le> df2" and "df2 < length h2"
    by simp_all
next
  assume "cleaning_values df h = Inr (df3, h3)"
  from cleaning_values_frame [OF this]
  show "take (length h) h3 = h" and "length h \<le> df3" and "df3 < length h3"
    by simp_all
qed

theorem operations_leave_the_input_witness:
  "to_time \<lparr>timezone = None\<rparr> example_lib 0 None False [two_dates]
     = Inr ((1, ''D''),
            [two_dates,
             \<lparr>columns = [(''v'', Int64T)], index_dtype = Datetime64T None,
               rows = [(Ts 86400000000000, [IntV 7]), (NaT, [IntV 8])]\<rparr>])
   \<and> take (length [two_dates])
        [two_dates,
         \<lparr>columns = [(''v'', Int64T)], index_dtype = Datetime64T None,
           rows = [(Ts 86400000000000, [IntV 7]), (NaT, [IntV 8])]\<rparr>] = [two_dates]
   \<and> clean_dates wednesday 0 ''W'' [june_naive] =
       Inr (3, [june_naive, june_naive,
                june_naive\<lparr>rows := [(Ts (instant 2024 6 9 0 0 0), [IntV 2]),
                                    (Ts (instant 2024 5 31 0 0 0), [IntV 4])]\<rparr>,
                june_naive\<lparr>rows := [(Ts (instant 2024 5 31 0 0 0), [IntV 4]),
                                    (Ts (instant 2024 6 9 0 0 0), [IntV 2])]\<rparr>])
   \<and> take (length [june_naive])
        [june_naive, june_naive,
         june_naive\<lparr>rows := [(Ts (instant 2024 6 9 0 0 0), [IntV 2]),
                             (Ts (instant 2024 5 31 0 0 0), [IntV 4])]\<rparr>,
         june_naive\<lparr>rows := [(Ts (instant 2024 5 31 0 0 0), [IntV 4]),
                             (Ts (instant 2024 6 9 0 0 0), [IntV 2])]\<rparr>] = [june_naive]
   \<and> cleaning_values 0 [prices] =
       Inr (1, [prices,
                \<lparr>columns = [(''price'', Float64T), (''volume'', Int64T)],
                  index_dtype = Int64T,
                  rows = [(IntV 0, [Flt 12, IntV 7]), (IntV 1, [NaN, IntV 8]),
                          (IntV 2, [NaN, IntV 9])]\<rparr>])
   \<and> take (length [prices])
        [prices,
         \<lparr>columns = [(''price'', Float64T), (''volume'', Int64T)],
           index_dtype = Int64T,
           rows = [(IntV 0, [Flt 12, IntV 7]), (IntV 1, [NaN, IntV 8]),
                   (IntV 2, [NaN, IntV 9])]\<rparr>] = [prices]"
  using operations_leave_the_input
    [of "\<lparr>timezone = None\<rparr>" example_lib 0 None False "[two_dates]" 1 "''D''"
        "[two_dates,
          \<lparr>columns = [(''v'', Int64T)], index_dtype = Datetime64T None,
            rows = [(Ts 86400000000000, [IntV 7]), (NaT, [IntV 8])]\<rparr>]"]
    to_time_two_dates clean_dates_naive_week cleaning_values_prices
  by simp

text \<open>A text with a point goes missing: the \<open>NaN\<close> put in its place is part of no number.\<close>

lemma replace_lit_keeps:
  "c \<in> set s \<Longrightarrow> c \<notin> set pat \<Longrightarrow> c \<in> set (replace_lit pat rep s)"
proof (induction pat rep s rule: replace_lit.induct)
  case (1 pat rep)
  then show ?case by simp
next
  case (2 pat rep x xs)
  show ?case
  proof (cases "pat \<noteq> [] \<and> prefix pat (x # xs)")
    case True
    then obtain rest where split: "x # xs = pat @ rest"
      by (auto simp: prefix_def)
    then have "drop (length pat) (x # xs) = rest"
      by (metis append_eq_conv_conj)
    moreover from split "2.prems" have "c \<in> set rest"
      by (metis Un_iff set_append)
    ultimately have "c \<in> set (replace_lit pat rep (drop (length pat) (x # xs)))"
      using "2.IH"(1) [OF True] "2.prems"(2) by simp
    with True show ?thesis by simp
  next
    case False
    show ?thesis
    proof (cases "c = x")
      case True
      with False show ?thesis by auto
    next
      case neq: False
      with "2.prems" have "c \<in> set xs" by simp
      with "2.IH"(2) [OF False] "2.prems"(2) False show ?thesis by auto
    qed
  qed
qed

lemma replace_lit_char:
  "p \<in> set s \<Longrightarrow> set rep \<subseteq> set (replace_lit [p] rep s)"
  by (induction s) auto

lemma in_dropWhile: "x \<in> set xs \<Longrightarrow> \<not> P x \<Longrightarrow> x \<in> set (dropWhile P xs)"
  by (induction xs) auto

lemma letter_a: "\<not> is_space (CHR ''a'')" "\<not> is_digit (CHR ''a'')" "lower_char (CHR ''a'') = CHR ''a''"
  by (simp_all add: is_space_def is_digit_def lower_char_def)

lemma take_sign_keeps:
  "take_sign s = (neg, r) \<Longrightarrow> CHR ''a'' \<in> set s \<Longrightarrow> CHR ''a'' \<in> set r"
  by (cases s) (auto split: if_splits)

lemma take_fraction_keeps:
  "take_fraction s = (fp, point, r) \<Longrightarrow> CHR ''a'' \<in> set s \<Longrightarrow> CHR ''a'' \<in> set r"
  by (cases s) (auto split: if_splits intro: in_dropWhile simp: letter_a)

lemma take_exponent_keeps:
  "take_exponent s = (ex, r) \<Longrightarrow> CHR ''a'' \<in> set s \<Longrightarrow> CHR ''a'' \<in> set r"
proof (cases s)
  case Nil
  then show "take_exponent s = (ex, r) \<Longrightarrow> CHR ''a'' \<in> set s \<Longrightarrow> CHR ''a'' \<in> set r"
    by simp
next
  case (Cons c cs)
  assume te: "take_exponent s = (ex, r)" and a: "CHR ''a'' \<in> set s"
  obtain neg ds where ts: "take_sign cs = (neg, ds)"
    by (cases "take_sign cs")
  show "CHR ''a'' \<in> set r"
  proof (cases "(c = CHR ''e'' \<or> c = CHR ''E'') \<and> takeWhile is_digit ds \<noteq> []")
    case True
    with te Cons ts have r: "r = dropWhile is_digit ds"
      by auto
    from True a Cons have "CHR ''a'' \<in> set cs"
      by auto
    from take_sign_keeps [OF ts this] have "CHR ''a'' \<in> set ds" .
    then show ?thesis
      unfolding r by (rule in_dropWhile) (simp add: letter_a)
  next
    case False
    with te Cons ts have "r = s"
      by (auto split: if_splits)
    with a show ?thesis by simp
  qed
qed

lemma special_value_letter_a:
  assumes "CHR ''a'' \<in> set s"
  shows "special_value s = NaN"
proof -
  obtain neg w where ts: "take_sign (lower s) = (neg, w)"
    by (cases "take_sign (lower s)")
  from assms have "CHR ''a'' \<in> set (lower s)"
    unfolding lower_def using letter_a(3) by (metis image_eqI set_map)
  from take_sign_keeps [OF ts this] have "CHR ''a'' \<in> set w" .
  then have "w \<noteq> ''inf''" and "w \<noteq> ''infinity''"
    by auto
  with ts show ?thesis
    by (simp add: special_value_def)
qed

lemma to_numeric_text_letter_a:
  assumes "CHR ''a'' \<in> set s"
  shows "to_numeric_text s = NaN"
proof -
  obtain neg s2 where ts: "take_sign (dropWhile is_space s) = (neg, s2)"
    by (cases "take_sign (dropWhile is_space s)")
  obtain fp point s4 where tf: "take_fraction (dropWhile is_digit s2) = (fp, point, s4)"
    by (cases "take_fraction (dropWhile is_digit s2)")
  obtain ex s5 where te: "take_exponent s4 = (ex, s5)"
    by (cases "take_exponent s4")
  from assms have "CHR ''a'' \<in> set (dropWhile is_space s)"
    by (rule in_dropWhile) (simp add: letter_a)
  from take_sign_keeps [OF ts this] have "CHR ''a'' \<in> set s2" .
  then have "CHR ''a'' \<in> set (dropWhile is_digit s2)"
    by (rule in_dropWhile) (simp add: letter_a)
  from take_fraction_keeps [OF tf this] have "CHR ''a'' \<in> set s4" .
  from take_exponent_keeps [OF te this] have "CHR ''a'' \<in> set s5" .
  then have "CHR ''a'' \<in> set (dropWhile is_space s5)"
    by (rule in_dropWhile) (simp add: letter_a)
  then have "dropWhile is_space s5 \<noteq> []"
    by (cases "dropWhile is_space s5") simp_all
  with ts tf te special_value_letter_a [OF assms] show ?thesis
    by (simp add: to_numeric_text_def)
qed

lemma clean_cell_point:
  assumes "CHR ''.'' \<in> set s"
  shows "clean_cell (Str s) = NaN"
proof -
  have "CHR ''.'' \<in> set (replace_lit ''#DIV/0!'' ''NaN'' s)"
    using assms by (rule replace_lit_keeps) simp
  from replace_lit_char [OF this, of "''NaN''"]
  have "CHR ''a'' \<in> set (replace_lit ''.'' ''NaN'' (replace_lit ''#DIV/0!'' ''NaN'' s))"
    by auto
  then have "CHR ''a'' \<in> set (replace_lit ''%'' [] (replace_lit ''.'' ''NaN'' (replace_lit ''#DIV/0!'' ''NaN'' s)))"
    by (rule replace_lit_keeps) simp
  then have "CHR ''a'' \<in> set (replace_lit '','' [] (replace_lit ''%'' [] (replace_lit ''.'' ''NaN'' (replace_lit ''#DIV/0!'' ''NaN'' s))))"
    by (rule replace_lit_keeps) simp
  then have "CHR ''a'' \<in> set (replace_lit ''$'' [] (replace_lit '','' [] (replace_lit ''%'' [] (replace_lit ''.'' ''NaN'' (replace_lit ''#DIV/0!'' ''NaN'' s)))))"
    by (rule replace_lit_keeps) simp
  from to_numeric_text_letter_a [OF this] show ?thesis
    by (simp add: clean_cell_def str_replace_def to_numeric_def)
qed

text \<open>
  C7. In a well-formed table, a text cell of a text column comes out of \<open>cleaning_values\<close>
  as the number read from the text after the replacements in their order: \<open>#DIV/0!\<close> to
  \<open>NaN\<close>, then \<open>.\<close> to \<open>NaN\<close>, then \<open>%\<close>, \<open>,\<close> and \<open>$\<close> removed; what is no number is
  missing, and the number is a float when the column is a float column. \<open>12%\<close> gives 12,
  \<open>#DIV/0!\<close> gives missing, and \<open>$1,234.56\<close> becomes \<open>$1,234NaN56\<close> at the second
  replacement and gives missing, where \<open>1234.56\<close> would be read as the number 1234.56;
  so does every text that holds a point.
\<close>

theorem cleaning_values_text_cell:
  "(well_formed (h ! df) \<and> cleaning_values df h = Inr (df', h')
      \<and> j < length (columns (h ! df)) \<and> dtype_at (h ! df) j = ObjectT
      \<and> i < length (rows (h ! df)) \<and> cell_at (h ! df) i j = Str s
    \<longrightarrow> cell_at (h' ! df') i j
          = (if dtype_at (h' ! df') j = Int64T then clean_cell (Str s)
             else promote (clean_cell (Str s)))
        \<and> clean_cell (Str s)
          = to_numeric_text
              (replace_lit ''$'' []
                (replace_lit '','' []
                  (replace_lit ''%'' []
                    (replace_lit ''.'' ''NaN'' (replace_lit ''#DIV/0!'' ''NaN'' s))))))
   \<and> clean_cell (Str ''12%'') = IntV 12
   \<and> clean_cell (Str ''#DIV/0!'') = NaN
   \<and> clean_cell (Str ''$1,234.56'') = NaN
   \<and> replace_lit ''.'' ''NaN'' ''$1,234.56'' = ''$1,234NaN56''
   \<and> to_numeric_text ''1234.56'' = Flt (30864 / 25)
   \<and> (CHR ''.'' \<in> set u \<longrightarrow> clean_cell (Str u) = NaN)"
proof (intro conjI impI)
  assume a: "well_formed (h ! df) \<and> cleaning_values df h = Inr (df', h')
      \<and> j < length (columns (h ! df)) \<and> dtype_at (h ! df) j = ObjectT
      \<and> i < length (rows (h ! df)) \<and> cell_at (h ! df) i j = Str s"
  then have wf: "well_formed (h ! df)" and run: "cleaning_values df h = Inr (df', h')"
    and j: "j < length (columns (h ! df))" and obj: "dtype_at (h ! df) j = ObjectT"
    and i: "i < length (rows (h ! df))" and cell: "cell_at (h ! df) i j = Str s"
    by simp_all
  from cleaning_values_cells [OF wf run j i] obj cell
  show "cell_at (h' ! df') i j
          = (if dtype_at (h' ! df') j = Int64T then clean_cell (Str s)
             else promote (clean_cell (Str s)))"
    by (simp add: cleaned_def)
  show "clean_cell (Str s)
          = to_numeric_text
              (replace_lit ''$'' []
                (replace_lit '','' []
                  (replace_lit ''%'' []
                    (replace_lit ''.'' ''NaN'' (replace_lit ''#DIV/0!'' ''NaN'' s)))))"
    by (simp add: clean_cell_def str_replace_def to_numeric_def)
next
  show "clean_cell (Str ''12%'') = IntV 12"
    by (rule clean_cell_examples)
  show "clean_cell (Str ''#DIV/0!'') = NaN"
    by (rule clean_cell_examples)
  show "clean_cell (Str ''$1,234.56'') = NaN"
    by (rule clean_cell_examples)
  show "replace_lit ''.'' ''NaN'' ''$1,234.56'' = ''$1,234NaN56''"
    by simp
  show "to_numeric_text ''1234.56'' = Flt (30864 / 25)"
    by (rule to_numeric_text_decimal)
next
  assume "CHR ''.'' \<in> set u"
  then show "clean_cell (Str u) = NaN"
    by (rule clean_cell_point)
qed

theorem cleaning_values_text_cell_witness:
  "well_formed ([prices] ! 0)
   \<and> cleaning_values 0 [prices] =
       Inr (1, [prices,
                \<lparr>columns = [(''price'', Float64T), (''volume'', Int64T)],
                  index_dtype = Int64T,
                  rows = [(IntV 0, [Flt 12, IntV 7]), (IntV 1, [NaN, IntV 8]),
                          (IntV 2, [NaN, IntV 9])]\<rparr>])
   \<and> dtype_at ([prices] ! 0) 0 = ObjectT
   \<and> cell_at ([prices] ! 0) 0 0 = Str ''12%''
   \<and> cell_at ([prices,
                \<lparr>columns = [(''price'', Float64T), (''volume'', Int64T)],
                  index_dtype = Int64T,
                  rows = [(IntV 0, [Flt 12, IntV 7]), (IntV 1, [NaN, IntV 8]),
                          (IntV 2, [NaN, IntV 9])]\<rparr>] ! 1) 0 0 = promote (clean_cell (Str ''12%''))
   \<and> promote (clean_cell (Str ''12%'')) = Flt 12"
proof -
  have wf: "well_formed ([prices] ! 0)"
    by (simp add: well_formed_def prices_def)
  have obj: "dtype_at ([prices] ! 0) 0 = ObjectT" and cell: "cell_at ([prices] ! 0) 0 0 = Str ''12%''"
    and j: "0 < length (columns ([prices] ! 0))" and i: "0 < length (rows ([prices] ! 0))"
    by (simp_all add: dtype_at_def cell_at_def prices_def)
  have val: "promote (clean_cell (Str ''12%'')) = Flt 12"
    by (simp add: clean_cell_examples promote_def)
  from cleaning_values_text_cell
    [of "[prices]" 0 1 "[prices,
                \<lparr>columns = [(''price'', Float64T), (''volume'', Int64T)],
                  index_dtype = Int64T,
                  rows = [(IntV 0, [Flt 12, IntV 7]), (IntV 1, [NaN, IntV 8]),
                          (IntV 2, [NaN, IntV 9])]\<rparr>]" 0 0 "''12%''" "''3.14''"]
    wf cleaning_values_prices obj cell j i
  have "cell_at ([prices,
                \<lparr>columns = [(''price'', Float64T), (''volume'', Int64T)],
                  index_dtype = Int64T,
                  rows = [(IntV 0, [Flt 12, IntV 7]), (IntV 1, [NaN, IntV 8]),
                          (IntV 2, [NaN, IntV 9])]\<rparr>] ! 1) 0 0 = promote (clean_cell (Str ''12%''))"
    by (simp add: dtype_at_def)
  with wf cleaning_values_prices obj cell val show ?thesis
    by blast
qed

end
